theory Spec2Isabelle
  imports Complex_Main
begin

section \<open>Data model\<close>

text \<open>
  The tap/progression engine of the mini-app backend: the handlers \<open>tap\<close> and \<open>boost\<close> and
  the helper \<open>distributeReferralXP\<close> of the user controller, and the quest route's claim
  handler with \<open>verifyQuestCompletion\<close>.

  JavaScript numbers are modelled as mathematical integers (the counters stay far below
  \<open>2^53\<close>, where doubles are exact), dates as milliseconds since the epoch, Mongo object
  ids and Telegram ids as natural numbers. A handler takes the persistent state and returns
  its HTTP response with the new state. Calls to collaborators that are not part of the
  controller (the database driver, the leaderboard model, the Telegram membership check)
  may reject; what they do is a parameter of the model, kept in the record \<open>env\<close>.
\<close>

type_synonym time = int
type_synonym oid = nat
type_synonym tgid = nat

record user =
  user_id :: oid
  telegramId :: tgid
  username :: string
  xp :: int
  compute :: int
  computePower :: int
  totalTaps :: int
  gpuLevel :: int
  cooldownEndTime :: "time option"
  boostCount :: int
  lastTapTime :: "time option"
  lastBoostTime :: "time option"
  completedQuests :: "oid list"
  referredBy :: "oid option"
  level :: "int option"

record quest =
  quest_id :: oid
  title :: string
  description :: string
  xpReward :: int
  qtype :: string
  expiresAt :: time
  action :: "string option"
  targetId :: "string option"
  requirement :: "int option"

record referral =
  referrer :: oid
  referred :: oid
  totalRewardsDistributed :: int

text \<open>
  Modelled from the spec: the Leaderboard model is not part of the sources; an entry is
  keyed by window, period start and user and carries a user name and a score.
\<close>

record lb_entry =
  window :: string
  periodStart :: time
  lb_user :: oid
  lb_username :: string
  score :: int

datatype log_event =
  Info_TapRejectedCooldown tgid
  | Info_CooldownInitiated tgid
  | Info_GpuUpgraded tgid int
  | Info_DistributedReferralXP int oid nat
  | Error_DistributingReferralXP string
  | Info_SuccessfulTap tgid
  | Error_Tap string
  | Error_Boost string
  | Info_QuestClaimed tgid oid
  | Error_ClaimingQuest string

record world =
  users :: "user list"
  quests :: "quest list"
  referrals :: "referral list"
  leaderboard :: "lb_entry list"
  logged :: "log_event list"

datatype db_op =
  User_findOne_telegramId tgid
  | User_findById_populate oid
  | User_findOne_id "oid option"
  | User_save oid
  | Quest_findById oid
  | Referral_findOneAndUpdate oid oid

text \<open>
  The surroundings of one request: the clock readings (\<open>now\<close> is \<open>new Date()\<close> at the
  start of the handler; \<open>today\<close>, \<open>weekStart\<close> and \<open>allTimeDate\<close> are the period starts
  computed from the local calendar before the leaderboard calls), the database calls that
  reject with their message (\<open>rejects\<close>), \<open>Leaderboard.updateEntry\<close> and
  \<open>verifyTelegramQuest\<close>, both with \<open>Inl\<close> for a rejection, and the order in which the
  promises handed to \<open>Promise.all\<close> settle (\<open>settleOrder\<close>, as indices into the array; a
  promise that is not listed settles after the listed ones, in the order of the array).
\<close>

record env =
  now :: time
  today :: time
  weekStart :: time
  allTimeDate :: time
  rejects :: "db_op \<Rightarrow> string option"
  updateEntry :: "string \<Rightarrow> time \<Rightarrow> oid \<Rightarrow> string \<Rightarrow> int \<Rightarrow> lb_entry list \<Rightarrow> string + lb_entry list"
  verifyTelegramQuest :: "string \<Rightarrow> string \<Rightarrow> tgid \<Rightarrow> string + bool"
  settleOrder :: "nat list"

record tap_snapshot =
  snap_xp :: int
  snap_compute :: int
  snap_totalTaps :: int
  snap_computePower :: int
  snap_gpuLevel :: int
  snap_cooldownEndTime :: "time option"
  snap_boostCount :: int

record boost_snapshot =
  bsnap_xp :: int
  bsnap_compute :: int
  bsnap_totalTaps :: int
  bsnap_boostCount :: int
  bsnap_lastBoostTime :: "time option"

datatype response =
  TapSuccessful tap_snapshot
  | Cooldown time
  | UserNotFound
  | ServerError string
  | NoBoostAvailable
  | BoostActivated boost_snapshot
  | QuestNotFound
  | AlreadyClaimed
  | NotJoined
  | QuestClaimed int
  | ErrorClaimingQuest string

fun status :: "response \<Rightarrow> nat" where
  "status (TapSuccessful _) = 200"
| "status (Cooldown _) = 400"
| "status UserNotFound = 404"
| "status (ServerError _) = 500"
| "status NoBoostAvailable = 400"
| "status (BoostActivated _) = 200"
| "status QuestNotFound = 404"
| "status AlreadyClaimed = 400"
| "status NotJoined = 400"
| "status (QuestClaimed _) = 200"
| "status (ErrorClaimingQuest _) = 500"

section \<open>Persistence and logging\<close>

definition logger :: "log_event \<Rightarrow> world \<Rightarrow> world" where
  "logger ev w = w\<lparr>logged := logged w @ [ev]\<rparr>"

definition User_findOne :: "env \<Rightarrow> tgid \<Rightarrow> world \<Rightarrow> string + user option" where
  "User_findOne e t w =
     (case rejects e (User_findOne_telegramId t) of
        Some m \<Rightarrow> Inl m
      | None \<Rightarrow> Inr (find (\<lambda>u. telegramId u = t) (users w)))"

definition save :: "env \<Rightarrow> user \<Rightarrow> world \<Rightarrow> string + world" where
  "save e u w =
     (case rejects e (User_save (user_id u)) of
        Some m \<Rightarrow> Inl m
      | None \<Rightarrow> Inr (w\<lparr>users := map (\<lambda>v. if user_id v = user_id u then u else v) (users w)\<rparr>))"

text \<open>
  JavaScript's \<open>%\<close> takes the sign of the dividend.
\<close>

definition js_rem :: "int \<Rightarrow> int \<Rightarrow> int" where
  "js_rem a b = sgn a * (\<bar>a\<bar> mod \<bar>b\<bar>)"

section \<open>Referral propagation\<close>

text \<open>
  \<open>Referral.findOneAndUpdate\<close> with \<open>$inc\<close> and no upsert: the first edge from the
  referrer to the referred user gets its counter raised; without such an edge nothing changes.
\<close>

type_synonym referral_model = "oid \<Rightarrow> oid \<Rightarrow> int \<Rightarrow> referral list \<Rightarrow> referral list"

fun findOneAndUpdate_inc :: referral_model where
  "findOneAndUpdate_inc r d n [] = []"
| "findOneAndUpdate_inc r d n (x # xs) =
     (if referrer x = r \<and> referred x = d
      then x\<lparr>totalRewardsDistributed := totalRewardsDistributed x + n\<rparr> # xs
      else x # findOneAndUpdate_inc r d n xs)"

text \<open>
  What the identifier \<open>Referral\<close> is bound to in the module of the user controller. The
  module requires \<open>User\<close>, \<open>Leaderboard\<close>, \<open>verifyTelegramWebAppData\<close>, \<open>logger\<close> and
  \<open>calculateReferralReward\<close>; it neither requires nor declares \<open>Referral\<close>, so evaluating
  the identifier throws a ReferenceError.
\<close>

definition userController_Referral :: "referral_model option" where
  "userController_Referral = None"

text \<open>
  The literals \<open>0.1\<close>, \<open>0.05\<close> and \<open>0.025\<close>, as exact fractions: the source multiplies
  doubles, and for the integer amounts of xp that occur \<open>Math.floor\<close> of the double product
  is the floor of the exact one. The loop reads the list at \<open>currentTier - 1\<close> with
  \<open>currentTier\<close> from 1 to 3.
\<close>

definition tierPercentages :: "rat list" where
  "tierPercentages = [1 / 10, 1 / 20, 1 / 40]"

text \<open>
  The \<open>while\<close> loop of \<open>distributeReferralXP\<close>. The result is the state reached and the
  message of the exception that left the loop, if one did. \<open>Referral\<close> is the binding of that
  identifier in the module.
\<close>

function referral_loop ::
  "env \<Rightarrow> referral_model option \<Rightarrow> user \<Rightarrow> int \<Rightarrow> user option \<Rightarrow> nat \<Rightarrow> world
     \<Rightarrow> world \<times> string option" where
  "referral_loop e Referral usr xpGained currentReferrer currentTier w =
     (case currentReferrer of
        None \<Rightarrow> (w, None)
      | Some r \<Rightarrow>
          (if \<not> currentTier \<le> 3 then (w, None)
           else
             (let referralXP = \<lfloor>of_int xpGained * tierPercentages ! (currentTier - 1)\<rfloor>;
                  r' = r\<lparr>xp := xp r + referralXP\<rparr>
              in (case Referral of
                    None \<Rightarrow> (w, Some ''Referral is not defined'')
                  | Some findOneAndUpdate \<Rightarrow>
                      (case rejects e (Referral_findOneAndUpdate (user_id r') (user_id usr)) of
                         Some m \<Rightarrow> (w, Some m)
                       | None \<Rightarrow>
                           (let w1 = w\<lparr>referrals :=
                                      findOneAndUpdate (user_id r') (user_id usr) referralXP (referrals w)\<rparr>
                            in (case save e r' w1 of
                                  Inl m \<Rightarrow> (w1, Some m)
                                | Inr w2 \<Rightarrow>
                                    (let w3 = logger (Info_DistributedReferralXP referralXP (user_id r') currentTier) w2
                                     in (case rejects e (User_findOne_id (referredBy r')) of
                                           Some m \<Rightarrow> (w3, Some m)
                                         | None \<Rightarrow>
                                             referral_loop e Referral usr xpGained
                                               (case referredBy r' of
                                                  None \<Rightarrow> None
                                                | Some p \<Rightarrow> find (\<lambda>u. user_id u = p) (users w3))
                                               (currentTier + 1) w3)))))))))"
  by pat_completeness auto
termination
  by (relation "measure (\<lambda>(e, R, usr, x, cur, tier, w). 4 - tier)") auto

declare referral_loop.simps [simp del]

text \<open>
  \<open>distributeReferralXP\<close>: the body of the \<open>try\<close> first, then the function with its
  \<open>catch\<close>, which logs the error and returns normally. \<open>populate('referredBy')\<close> replaces the
  reference by the referred document, or by null when there is none.
\<close>

definition distributeReferralXP_try ::
  "env \<Rightarrow> referral_model option \<Rightarrow> oid \<Rightarrow> int \<Rightarrow> world \<Rightarrow> world \<times> string option" where
  "distributeReferralXP_try e Referral userId xpGained w =
     (case rejects e (User_findById_populate userId) of
        Some m \<Rightarrow> (w, Some m)
      | None \<Rightarrow>
          (case find (\<lambda>u. user_id u = userId) (users w) of
             None \<Rightarrow> (w, None)
           | Some usr \<Rightarrow>
               (case referredBy usr of
                  None \<Rightarrow> (w, None)
                | Some p \<Rightarrow>
                    (case find (\<lambda>u. user_id u = p) (users w) of
                       None \<Rightarrow> (w, None)
                     | Some r \<Rightarrow> referral_loop e Referral usr xpGained (Some r) 1 w))))"

definition distributeReferralXP ::
  "env \<Rightarrow> referral_model option \<Rightarrow> oid \<Rightarrow> int \<Rightarrow> world \<Rightarrow> world" where
  "distributeReferralXP e Referral userId xpGained w =
     (case distributeReferralXP_try e Referral userId xpGained w of
        (w', None) \<Rightarrow> w'
      | (w', Some m) \<Rightarrow> logger (Error_DistributingReferralXP m) w')"

section \<open>Tap\<close>

text \<open>
  The updates of the user document between the cooldown check and \<open>user.save()\<close>, with the
  messages logged on the way.
\<close>

definition apply_tap :: "time \<Rightarrow> user \<Rightarrow> user \<times> log_event list" where
  "apply_tap t usr =
     (let u1 = usr\<lparr>totalTaps := totalTaps usr + 1\<rparr>;
          xpGained = computePower u1;
          u2 = u1\<lparr>xp := xp u1 + xpGained\<rparr>;
          u3 = u2\<lparr>compute := compute u2 + xpGained\<rparr>;
          u4 = u3\<lparr>lastTapTime := Some t\<rparr>;
          (u5, l5) =
            (if js_rem (totalTaps u4) 500 = 0
             then (u4\<lparr>cooldownEndTime := Some (t + 10 * 1000)\<rparr>,
                   [Info_CooldownInitiated (telegramId u4)])
             else (u4, []));
          (u6, l6) =
            (if xp u5 \<ge> (gpuLevel u5 + 1) * 25000
             then (u5\<lparr>gpuLevel := gpuLevel u5 + 1, computePower := computePower u5 + 1\<rparr>,
                   l5 @ [Info_GpuUpgraded (telegramId u5) (gpuLevel u5 + 1)])
             else (u5, l5));
          u7 = (if js_rem (xp u6) 2000 = 0 then u6\<lparr>boostCount := boostCount u6 + 1\<rparr> else u6)
      in (u7, l6))"

text \<open>
  The three \<open>updateEntry\<close> calls of the handler, as functions of the leaderboard entries.
\<close>

definition daily_call :: "env \<Rightarrow> user \<Rightarrow> lb_entry list \<Rightarrow> string + lb_entry list" where
  "daily_call e usr = updateEntry e ''daily'' (today e) (user_id usr) (username usr) (compute usr)"

definition weekly_call :: "env \<Rightarrow> user \<Rightarrow> lb_entry list \<Rightarrow> string + lb_entry list" where
  "weekly_call e usr = updateEntry e ''weekly'' (weekStart e) (user_id usr) (username usr) (compute usr)"

definition allTime_call :: "env \<Rightarrow> user \<Rightarrow> lb_entry list \<Rightarrow> string + lb_entry list" where
  "allTime_call e usr =
     updateEntry e ''all-time'' (allTimeDate e) (user_id usr) (username usr) (computePower usr)"

text \<open>
  \<open>Promise.all\<close>: every call of the array is started, a call that rejects leaves the
  entries as they are, and the result holds, in the order of the array, the rejection of each
  call (none when it fulfilled). \<open>Promise.all\<close> rejects with the rejection that settles
  first: \<open>first_rejection\<close> takes the promises in the order they settle.
\<close>

fun promise_all ::
  "(lb_entry list \<Rightarrow> string + lb_entry list) list \<Rightarrow> lb_entry list
     \<Rightarrow> lb_entry list \<times> string option list" where
  "promise_all [] lb = (lb, [])"
| "promise_all (c # cs) lb =
     (case c lb of
        Inl m \<Rightarrow> (case promise_all cs lb of (lb', rs) \<Rightarrow> (lb', Some m # rs))
      | Inr lb1 \<Rightarrow> (case promise_all cs lb1 of (lb', rs) \<Rightarrow> (lb', None # rs)))"

definition first_rejection :: "nat list \<Rightarrow> string option list \<Rightarrow> string option" where
  "first_rejection order rs =
     (case List.map_filter (\<lambda>i. if i < length rs then rs ! i else None)
             (order @ [0..<length rs]) of
        [] \<Rightarrow> None
      | m # _ \<Rightarrow> Some m)"

definition update_leaderboards :: "env \<Rightarrow> user \<Rightarrow> world \<Rightarrow> world \<times> string option" where
  "update_leaderboards e usr w =
     (case promise_all [daily_call e usr, weekly_call e usr, allTime_call e usr] (leaderboard w) of
        (lb', rs) \<Rightarrow> (w\<lparr>leaderboard := lb'\<rparr>, first_rejection (settleOrder e) rs))"

definition snapshot :: "user \<Rightarrow> tap_snapshot" where
  "snapshot usr =
     \<lparr>snap_xp = xp usr, snap_compute = compute usr, snap_totalTaps = totalTaps usr,
      snap_computePower = computePower usr, snap_gpuLevel = gpuLevel usr,
      snap_cooldownEndTime = cooldownEndTime usr, snap_boostCount = boostCount usr\<rparr>"

definition tap_catch :: "string \<Rightarrow> world \<Rightarrow> response \<times> world" where
  "tap_catch m w = (ServerError m, logger (Error_Tap m) w)"

text \<open>
  \<open>user.cooldownEndTime && now < user.cooldownEndTime\<close>: a Date object is truthy, null is not.
\<close>

definition cooling :: "time \<Rightarrow> user \<Rightarrow> time option" where
  "cooling t usr =
     (case cooldownEndTime usr of
        None \<Rightarrow> None
      | Some c \<Rightarrow> if t < c then Some c else None)"

definition tap :: "env \<Rightarrow> tgid \<Rightarrow> world \<Rightarrow> response \<times> world" where
  "tap e tid w =
     (case User_findOne e tid w of
        Inl m \<Rightarrow> tap_catch m w
      | Inr None \<Rightarrow> (UserNotFound, w)
      | Inr (Some usr) \<Rightarrow>
          (case cooling (now e) usr of
             Some c \<Rightarrow> (Cooldown c, logger (Info_TapRejectedCooldown (telegramId usr)) w)
           | None \<Rightarrow>
               (case apply_tap (now e) usr of
                  (usr', msgs) \<Rightarrow>
                    (let w1 = w\<lparr>logged := logged w @ msgs\<rparr>
                     in (case save e usr' w1 of
                           Inl m \<Rightarrow> tap_catch m w1
                         | Inr w2 \<Rightarrow>
                             (let w3 = distributeReferralXP e userController_Referral
                                         (user_id usr') (computePower usr) w2
                              in (case update_leaderboards e usr' w3 of
                                    (w4, Some m) \<Rightarrow> tap_catch m w4
                                  | (w4, None) \<Rightarrow>
                                      (TapSuccessful (snapshot usr'),
                                       logger (Info_SuccessfulTap (telegramId usr')) w4))))))))"

section \<open>Boost\<close>

definition apply_boost :: "time \<Rightarrow> user \<Rightarrow> user" where
  "apply_boost t usr =
     (let boostDuration = 10 * 1000;
          tapsPerSecond = 10;
          totalBoostTaps = tapsPerSecond * (boostDuration div 1000);
          u1 = usr\<lparr>boostCount := boostCount usr - 1\<rparr>;
          u2 = u1\<lparr>lastBoostTime := Some t\<rparr>;
          u3 = u2\<lparr>totalTaps := totalTaps u2 + totalBoostTaps\<rparr>;
          xpGained = totalBoostTaps * computePower u3;
          u4 = u3\<lparr>xp := xp u3 + xpGained\<rparr>;
          u5 = u4\<lparr>compute := compute u4 + xpGained\<rparr>
      in u5\<lparr>cooldownEndTime := None\<rparr>)"

definition boost_snapshot_of :: "user \<Rightarrow> boost_snapshot" where
  "boost_snapshot_of usr =
     \<lparr>bsnap_xp = xp usr, bsnap_compute = compute usr, bsnap_totalTaps = totalTaps usr,
      bsnap_boostCount = boostCount usr, bsnap_lastBoostTime = lastBoostTime usr\<rparr>"

definition boost_catch :: "string \<Rightarrow> world \<Rightarrow> response \<times> world" where
  "boost_catch m w = (ServerError m, logger (Error_Boost m) w)"

definition boost :: "env \<Rightarrow> tgid \<Rightarrow> world \<Rightarrow> response \<times> world" where
  "boost e tid w =
     (case User_findOne e tid w of
        Inl m \<Rightarrow> boost_catch m w
      | Inr None \<Rightarrow> (UserNotFound, w)
      | Inr (Some usr) \<Rightarrow>
          (if boostCount usr < 1 then (NoBoostAvailable, w)
           else
             (let usr' = apply_boost (now e) usr
              in (case save e usr' w of
                    Inl m \<Rightarrow> boost_catch m w
                  | Inr w1 \<Rightarrow> (BoostActivated (boost_snapshot_of usr'), w1)))))"

section \<open>Claiming a quest\<close>

text \<open>
  The value of a string field when it is truthy: present and not empty.
\<close>

definition truthy :: "string option \<Rightarrow> string option" where
  "truthy s = (case s of None \<Rightarrow> None | Some v \<Rightarrow> if v = [] then None else Some v)"

text \<open>
  \<open>a >= b\<close> on numbers that may be undefined: false as soon as one side is undefined.
\<close>

definition js_ge :: "int option \<Rightarrow> int option \<Rightarrow> bool" where
  "js_ge a b = (case a of None \<Rightarrow> False | Some x \<Rightarrow> (case b of None \<Rightarrow> False | Some y \<Rightarrow> x \<ge> y))"

definition verifyQuestCompletion :: "env \<Rightarrow> user option \<Rightarrow> quest option \<Rightarrow> string + bool" where
  "verifyQuestCompletion e usr_opt quest_opt =
     (case usr_opt of
        None \<Rightarrow> Inl ''User or quest is undefined''
      | Some usr \<Rightarrow>
          (case quest_opt of
             None \<Rightarrow> Inl ''User or quest is undefined''
           | Some q \<Rightarrow>
               (if qtype q = ''daily'' \<or> qtype q = ''weekly'' then Inr True
                else if qtype q = ''twitter'' then Inr True
                else if qtype q = ''telegram'' then
                  (case truthy (action q) of
                     None \<Rightarrow> Inl ''Missing data''
                   | Some a \<Rightarrow>
                       (case truthy (targetId q) of
                          None \<Rightarrow> Inl ''Missing data''
                        | Some t \<Rightarrow>
                            (if telegramId usr = 0 then Inl ''Missing data''
                             else verifyTelegramQuest e a t (telegramId usr))))
                else if qtype q = ''discord'' then Inr True
                else if qtype q = ''tap'' then Inr (js_ge (Some (totalTaps usr)) (requirement q))
                else if qtype q = ''level'' then Inr (js_ge (level usr) (requirement q))
                else if qtype q = ''leaderboard'' then Inr True
                else if qtype q = ''referral'' then Inr True
                else if qtype q = ''achievement'' then Inr True
                else Inl ''Unknown quest type'')))"

definition claim_catch :: "string \<Rightarrow> world \<Rightarrow> response \<times> world" where
  "claim_catch m w = (ErrorClaimingQuest m, logger (Error_ClaimingQuest m) w)"

definition Quest_findById_call :: "env \<Rightarrow> oid \<Rightarrow> world \<Rightarrow> string + quest option" where
  "Quest_findById_call e questId w =
     (case rejects e (Quest_findById questId) of
        Some m \<Rightarrow> Inl m
      | None \<Rightarrow> Inr (find (\<lambda>q. quest_id q = questId) (quests w)))"

definition claimQuest :: "env \<Rightarrow> tgid \<Rightarrow> oid \<Rightarrow> world \<Rightarrow> response \<times> world" where
  "claimQuest e tid questId w =
     (case User_findOne e tid w of
        Inl m \<Rightarrow> claim_catch m w
      | Inr None \<Rightarrow> (UserNotFound, w)
      | Inr (Some usr) \<Rightarrow>
          (case Quest_findById_call e questId w of
             Inl m \<Rightarrow> claim_catch m w
           | Inr None \<Rightarrow> (QuestNotFound, w)
           | Inr (Some q) \<Rightarrow>
               (if questId \<in> set (completedQuests usr) then (AlreadyClaimed, w)
                else
                  (case verifyQuestCompletion e (Some usr) (Some q) of
                     Inl m \<Rightarrow> claim_catch m w
                   | Inr verified \<Rightarrow>
                       (if \<not> verified \<and> qtype q = ''telegram'' then (NotJoined, w)
                        else
                          (let u1 = usr\<lparr>xp := xp usr + xpReward q\<rparr>;
                               u2 = u1\<lparr>completedQuests := completedQuests u1 @ [questId]\<rparr>
                           in (case save e u2 w of
                                 Inl m \<Rightarrow> claim_catch m w
                               | Inr w1 \<Rightarrow>
                                   (QuestClaimed (xp u2),
                                    logger (Info_QuestClaimed (telegramId u2) questId) w1))))))))"

section \<open>Runs and example states\<close>

text \<open>
  The document a request of the Telegram user \<open>tid\<close> works on.
\<close>

definition lookup :: "tgid \<Rightarrow> world \<Rightarrow> user option" where
  "lookup tid w = find (\<lambda>u. telegramId u = tid) (users w)"

definition succeeded :: "response \<Rightarrow> bool" where
  "succeeded r = (case r of TapSuccessful _ \<Rightarrow> True | _ \<Rightarrow> False)"

text \<open>
  The rejection of a call, if it rejected, and the leaderboard entries after it.
\<close>

definition rejection :: "string + lb_entry list \<Rightarrow> string option" where
  "rejection r = (case r of Inl m \<Rightarrow> Some m | Inr _ \<Rightarrow> None)"

definition settled :: "string + lb_entry list \<Rightarrow> lb_entry list \<Rightarrow> lb_entry list" where
  "settled r lb = (case r of Inl _ \<Rightarrow> lb | Inr lb' \<Rightarrow> lb')"

text \<open>
  The types other than \<open>telegram\<close> that \<open>verifyQuestCompletion\<close> has a case for.
\<close>

definition verified_types :: "string list" where
  "verified_types =
     [''daily'', ''weekly'', ''twitter'', ''discord'', ''tap'', ''level'', ''leaderboard'',
      ''referral'', ''achievement'']"

text \<open>
  A sequence of tap requests of one user, one environment per request.
\<close>

fun taps :: "env list \<Rightarrow> tgid \<Rightarrow> world \<Rightarrow> response list \<times> world" where
  "taps [] tid w = ([], w)"
| "taps (e # es) tid w =
     (case tap e tid w of
        (r, w1) \<Rightarrow> (case taps es tid w1 of (rs, w2) \<Rightarrow> (r # rs, w2)))"

text \<open>
  How often the log of a state says that a cooldown began for a user, and how many multiples
  of 500 lie above \<open>a\<close> and up to \<open>b\<close>.
\<close>

definition cooldowns_initiated :: "tgid \<Rightarrow> world \<Rightarrow> nat" where
  "cooldowns_initiated tid w = count_list (logged w) (Info_CooldownInitiated tid)"

definition multiples_of_500 :: "int \<Rightarrow> int \<Rightarrow> nat" where
  "multiples_of_500 a b = length (filter (\<lambda>k. k mod 500 = 0) [a + 1..b])"

text \<open>
  Modelled from the spec: \<open>Leaderboard.updateEntry\<close> is not part of the sources; it upserts
  the entry keyed by window, period start and user, setting the user name and the score.
\<close>

definition upsertEntry ::
  "string \<Rightarrow> time \<Rightarrow> oid \<Rightarrow> string \<Rightarrow> int \<Rightarrow> lb_entry list \<Rightarrow> string + lb_entry list" where
  "upsertEntry win start uid name sc lb =
     Inr (\<lparr>window = win, periodStart = start, lb_user = uid, lb_username = name, score = sc\<rparr>
          # filter (\<lambda>x. \<not> (window x = win \<and> periodStart x = start \<and> lb_user x = uid)) lb)"

text \<open>
  An environment in which every collaborator works, at time 1000; one in which the weekly
  leaderboard update rejects; and one in which the daily and the weekly update reject and
  the weekly one settles first.
\<close>

definition env_ok :: env where
  "env_ok =
     \<lparr>now = 1000, today = 0, weekStart = 0, allTimeDate = 0,
      rejects = (\<lambda>_. None), updateEntry = upsertEntry,
      verifyTelegramQuest = (\<lambda>_ _ _. Inr False), settleOrder = [0, 1, 2]\<rparr>"

definition env_weekly_down :: env where
  "env_weekly_down =
     env_ok\<lparr>updateEntry :=
              (\<lambda>win start uid name sc lb.
                 if win = ''weekly'' then Inl ''leaderboard unavailable''
                 else upsertEntry win start uid name sc lb)\<rparr>"

definition env_two_down :: env where
  "env_two_down =
     env_ok\<lparr>updateEntry :=
              (\<lambda>win start uid name sc lb.
                 if win = ''daily'' then Inl ''daily unavailable''
                 else if win = ''weekly'' then Inl ''weekly unavailable''
                 else upsertEntry win start uid name sc lb),
            settleOrder := [1, 0, 2]\<rparr>"

text \<open>
  A fresh user, with Telegram id 7, and the state holding the given documents.
\<close>

definition alice :: user where
  "alice =
     \<lparr>user_id = 1, telegramId = 7, username = ''alice'', xp = 0, compute = 0,
      computePower = 1, totalTaps = 0, gpuLevel = 0, cooldownEndTime = None, boostCount = 0,
      lastTapTime = None, lastBoostTime = None, completedQuests = [], referredBy = None,
      level = None\<rparr>"

definition world_of :: "user list \<Rightarrow> quest list \<Rightarrow> referral list \<Rightarrow> world" where
  "world_of us qs rs = \<lparr>users = us, quests = qs, referrals = rs, leaderboard = [], logged = []\<rparr>"

text \<open>
  A chain of referrals: user 1 was referred by 2, 2 by 3, 3 by 4 and 4 by 5.
\<close>

definition member :: "nat \<Rightarrow> oid option \<Rightarrow> user" where
  "member n p = alice\<lparr>user_id := n, telegramId := 10 + n, referredBy := p\<rparr>"

definition chain :: world where
  "chain =
     world_of
       [member 1 (Some 2), member 2 (Some 3), member 3 (Some 4), member 4 (Some 5), member 5 None]
       []
       [\<lparr>referrer = 2, referred = 1, totalRewardsDistributed = 0\<rparr>,
        \<lparr>referrer = 3, referred = 2, totalRewardsDistributed = 0\<rparr>,
        \<lparr>referrer = 4, referred = 3, totalRewardsDistributed = 0\<rparr>,
        \<lparr>referrer = 5, referred = 4, totalRewardsDistributed = 0\<rparr>]"

text \<open>
  A quest of type \<open>tap\<close> that requires 1000 taps, as the route for new quests accepts it;
  and quests of type \<open>level\<close> and \<open>bonus\<close> with the fields the Quest schema declares.
\<close>

definition tap_quest :: quest where
  "tap_quest =
     \<lparr>quest_id = 3, title = ''Tap a lot'', description = ''Reach 1000 taps'', xpReward = 500,
      qtype = ''tap'', expiresAt = 5000, action = Some ''tap'', targetId = None,
      requirement = Some 1000\<rparr>"

definition level_quest :: quest where
  "level_quest =
     \<lparr>quest_id = 4, title = ''Level up'', description = ''Reach level 3'', xpReward = 200,
      qtype = ''level'', expiresAt = 5000, action = None, targetId = None,
      requirement = None\<rparr>"

definition bonus_quest :: quest where
  "bonus_quest =
     \<lparr>quest_id = 5, title = ''Bonus'', description = ''A bonus quest'', xpReward = 300,
      qtype = ''bonus'', expiresAt = 5000, action = None, targetId = None,
      requirement = None\<rparr>"

text \<open>
  Two tap requests, one second apart, and two that are nineteen seconds apart.
\<close>

definition run2 :: "env list" where
  "run2 = [env_ok, env_ok\<lparr>now := 2000\<rparr>]"

definition run_499 :: "env list" where
  "run_499 = [env_ok, env_ok\<lparr>now := 20000\<rparr>]"

text \<open>
  Users at the states the properties below are tried on: in a cooldown until time 5000; one
  tap before 500 taps; one xp before the first GPU upgrade, and far above it; one xp before
  2000, with compute power 1 and 2; with a boost to spend while cooling down.
\<close>

definition cooling_alice :: user where
  "cooling_alice = alice\<lparr>totalTaps := 500, cooldownEndTime := Some 5000\<rparr>"

definition alice_499 :: user where
  "alice_499 = alice\<lparr>totalTaps := 499\<rparr>"

definition alice_24999 :: user where
  "alice_24999 = alice\<lparr>xp := 24999\<rparr>"

definition alice_rich :: user where
  "alice_rich = alice\<lparr>xp := 60000\<rparr>"

definition alice_1999 :: user where
  "alice_1999 = alice\<lparr>xp := 1999\<rparr>"

definition alice_1999_fast :: user where
  "alice_1999_fast = alice\<lparr>xp := 1999, computePower := 2\<rparr>"

definition alice_boosted :: user where
  "alice_boosted = alice\<lparr>xp := 25900, boostCount := 1, cooldownEndTime := Some 5000\<rparr>"

text \<open>
  The document of a user after a tap at the time of \<open>env_ok\<close>, and the states in which it
  has been saved.
\<close>

definition tapped :: "user \<Rightarrow> user" where
  "tapped u = fst (apply_tap (now env_ok) u)"

definition chain_saved :: world where
  "chain_saved =
     chain\<lparr>users := map (\<lambda>v. if user_id v = 1 then tapped (member 1 (Some 2)) else v) (users chain)\<rparr>"

definition alice_saved :: world where
  "alice_saved = world_of [tapped alice] [] []"

text \<open>
  A user with five taps and three quests to claim; the user and the state after the claim of
  the first quest.
\<close>

definition alice_5 :: user where
  "alice_5 = alice\<lparr>totalTaps := 5\<rparr>"

definition quest_world :: world where
  "quest_world = world_of [alice_5] [tap_quest, level_quest, bonus_quest] []"

definition alice_claimed :: user where
  "alice_claimed = alice_5\<lparr>xp := 500, completedQuests := [3]\<rparr>"

definition claimed_world :: world where
  "claimed_world =
     logger (Info_QuestClaimed 7 3)
       (world_of [alice_claimed] [tap_quest, level_quest, bonus_quest] [])"

section \<open>Auxiliary facts\<close>

text \<open>
  \<open>a % b === 0\<close> holds exactly when \<open>b\<close> divides \<open>a\<close>, whatever the signs.
\<close>

lemma js_rem_eq_0_iff: "js_rem a b = 0 \<longleftrightarrow> b dvd a"
  by (auto simp: js_rem_def sgn_if mod_eq_0_iff_dvd)

lemma apply_tap_fst:
  "fst (apply_tap t u) =
     u\<lparr>totalTaps := totalTaps u + 1,
       xp := xp u + computePower u,
       compute := compute u + computePower u,
       lastTapTime := Some t,
       cooldownEndTime := (if 500 dvd totalTaps u + 1 then Some (t + 10000) else cooldownEndTime u),
       gpuLevel := (if xp u + computePower u \<ge> (gpuLevel u + 1) * 25000 then gpuLevel u + 1 else gpuLevel u),
       computePower := (if xp u + computePower u \<ge> (gpuLevel u + 1) * 25000 then computePower u + 1 else computePower u),
       boostCount := (if 2000 dvd xp u + computePower u then boostCount u + 1 else boostCount u)\<rparr>"
  by (simp add: apply_tap_def Let_def js_rem_eq_0_iff split: prod.split)

lemma apply_tap_ids:
  "telegramId (fst (apply_tap t u)) = telegramId u" "user_id (fst (apply_tap t u)) = user_id u"
  by (simp_all add: apply_tap_fst)

lemma find_replace:
  "find (\<lambda>v. telegramId v = tid) us = Some u \<Longrightarrow> telegramId u' = tid \<Longrightarrow> user_id u' = user_id u
   \<Longrightarrow> find (\<lambda>v. telegramId v = tid) (map (\<lambda>v. if user_id v = user_id u' then u' else v) us) = Some u'"
  by (induction us) (auto split: if_splits)

lemma lookup_telegramId: "lookup tid w = Some u \<Longrightarrow> telegramId u = tid"
  unfolding lookup_def by (auto dest: find_Some_iff[THEN iffD1])

text \<open>
  With \<open>Referral\<close> unbound the loop stops in its first round, before anything is saved.
\<close>

lemma referral_loop_unbound:
  "t \<le> 3 \<Longrightarrow> referral_loop e None usr x (Some r) t w = (w, Some ''Referral is not defined'')"
  by (subst referral_loop.simps) (simp add: Let_def)

lemma users_distribute_unbound:
  "users (distributeReferralXP e None uid x w) = users w"
  by (simp add: distributeReferralXP_def distributeReferralXP_try_def referral_loop_unbound logger_def
      split: option.split)

lemma leaderboard_distribute_unbound:
  "leaderboard (distributeReferralXP e None uid x w) = leaderboard w"
  by (simp add: distributeReferralXP_def distributeReferralXP_try_def referral_loop_unbound logger_def
      split: option.split)

lemma users_update_leaderboards:
  "users (fst (update_leaderboards e u w)) = users w"
  by (simp add: update_leaderboards_def split: prod.split)

lemma update_leaderboards_error:
  "leaderboard w = leaderboard w' \<Longrightarrow> snd (update_leaderboards e u w) = snd (update_leaderboards e u w')"
  by (simp add: update_leaderboards_def split: prod.split)

text \<open>
  A tap is persisted when the user is found, no cooldown is active and the database accepts
  the lookup and the save. The stored document is then the one \<open>apply_tap\<close> computes,
  and the answer depends on the leaderboard updates alone.
\<close>

lemma tap_persisted:
  assumes "lookup tid w = Some u"
    and "rejects e (User_findOne_telegramId tid) = None"
    and "cooling (now e) u = None"
    and "rejects e (User_save (user_id u)) = None"
  shows "users (snd (tap e tid w)) =
           map (\<lambda>v. if user_id v = user_id u then fst (apply_tap (now e) u) else v) (users w)"
    and "fst (tap e tid w) =
           (case snd (update_leaderboards e (fst (apply_tap (now e) u)) w) of
              None \<Rightarrow> TapSuccessful (snapshot (fst (apply_tap (now e) u)))
            | Some m \<Rightarrow> ServerError m)"
proof -
  obtain u' msgs where a: "apply_tap (now e) u = (u', msgs)"
    by (cases "apply_tap (now e) u")
  have id: "user_id u' = user_id u"
    using apply_tap_ids(2)[of "now e" u] a by simp
  define w2 where "w2 = w\<lparr>logged := logged w @ msgs,
     users := map (\<lambda>v. if user_id v = user_id u then u' else v) (users w)\<rparr>"
  define w3 where "w3 = distributeReferralXP e userController_Referral (user_id u') (computePower u) w2"
  have sv: "save e u' (w\<lparr>logged := logged w @ msgs\<rparr>) = Inr w2"
    using assms(4) id by (simp add: save_def w2_def)
  have u3: "users w3 = users w2" and l3: "leaderboard w3 = leaderboard w"
    by (simp_all add: w3_def userController_Referral_def users_distribute_unbound
        leaderboard_distribute_unbound w2_def)
  obtain w4 err where ul: "update_leaderboards e u' w3 = (w4, err)"
    by (cases "update_leaderboards e u' w3")
  have u4: "users w4 = users w3"
    using users_update_leaderboards[of e u' w3] ul by simp
  have err: "err = snd (update_leaderboards e u' w)"
    using update_leaderboards_error[OF l3, of e u'] ul by simp
  have t: "tap e tid w =
      (case err of None \<Rightarrow> (TapSuccessful (snapshot u'), logger (Info_SuccessfulTap (telegramId u')) w4)
       | Some m \<Rightarrow> tap_catch m w4)"
    using assms(1-3) a sv ul
    by (simp add: tap_def User_findOne_def lookup_def Let_def w3_def split: option.split)
  show "users (snd (tap e tid w)) =
           map (\<lambda>v. if user_id v = user_id u then fst (apply_tap (now e) u) else v) (users w)"
    using t u4 u3 a by (simp add: w2_def logger_def tap_catch_def split: option.split)
  show "fst (tap e tid w) =
           (case snd (update_leaderboards e (fst (apply_tap (now e) u)) w) of
              None \<Rightarrow> TapSuccessful (snapshot (fst (apply_tap (now e) u)))
            | Some m \<Rightarrow> ServerError m)"
    using t err a by (simp add: tap_catch_def split: option.split)
qed

lemma tap_lookup:
  assumes "lookup tid w = Some u"
    and "rejects e (User_findOne_telegramId tid) = None"
    and "cooling (now e) u = None"
    and "rejects e (User_save (user_id u)) = None"
  shows "lookup tid (snd (tap e tid w)) = Some (fst (apply_tap (now e) u))"
proof -
  have "telegramId u = tid"
    using assms(1) by (rule lookup_telegramId)
  then have "find (\<lambda>v. telegramId v = tid)
          (map (\<lambda>v. if user_id v = user_id (fst (apply_tap (now e) u))
                     then fst (apply_tap (now e) u) else v) (users w))
        = Some (fst (apply_tap (now e) u))"
    using assms(1) by (intro find_replace) (simp_all add: lookup_def apply_tap_ids)
  then show ?thesis
    using tap_persisted(1)[OF assms] by (simp add: lookup_def apply_tap_ids)
qed

text \<open>
  The outcome of \<open>Promise.all\<close> in terms of the three calls: no rejection exactly when no
  call rejects, and otherwise the rejection of one of the calls, the one that settles first.
\<close>

lemma update_leaderboards_calls:
  "snd (update_leaderboards e u w) =
     first_rejection (settleOrder e)
       [rejection (daily_call e u (leaderboard w)),
        rejection (weekly_call e u (settled (daily_call e u (leaderboard w)) (leaderboard w))),
        rejection (allTime_call e u
          (settled (weekly_call e u (settled (daily_call e u (leaderboard w)) (leaderboard w)))
             (settled (daily_call e u (leaderboard w)) (leaderboard w))))]"
  by (simp add: update_leaderboards_def rejection_def settled_def split: sum.split prod.split)

lemma map_filter_Nil_iff: "List.map_filter f xs = [] \<longleftrightarrow> (\<forall>x\<in>set xs. f x = None)"
  by (induction xs) (auto simp: List.map_filter_simps split: option.split)

lemma map_filter_Cons_mem: "List.map_filter f xs = m # ms \<Longrightarrow> \<exists>x\<in>set xs. f x = Some m"
  by (induction xs) (auto simp: List.map_filter_simps split: option.splits)

lemma first_rejection_None_iff:
  "first_rejection order rs = None \<longleftrightarrow> (\<forall>r\<in>set rs. r = None)"
proof -
  let ?f = "\<lambda>i. if i < length rs then rs ! i else None"
  have a: "first_rejection order rs = None
      \<longleftrightarrow> List.map_filter ?f (order @ [0..<length rs]) = []"
    by (simp add: first_rejection_def split: list.split)
  have b: "List.map_filter ?f (order @ [0..<length rs]) = []
      \<longleftrightarrow> (\<forall>i<length rs. rs ! i = None)"
    unfolding map_filter_Nil_iff by auto
  show ?thesis
    using a b by (simp add: all_set_conv_all_nth)
qed

lemma first_rejection_Some_mem:
  assumes "first_rejection order rs = Some m"
  shows "Some m \<in> set rs"
proof -
  from assms obtain ms where
    "List.map_filter (\<lambda>i. if i < length rs then rs ! i else None) (order @ [0..<length rs]) = m # ms"
    by (auto simp: first_rejection_def split: list.splits)
  then obtain i where "(if i < length rs then rs ! i else None) = Some m"
    using map_filter_Cons_mem by fastforce
  then have "i < length rs" and "rs ! i = Some m"
    by (simp_all split: if_splits)
  then show ?thesis
    by (metis nth_mem)
qed

lemma logged_update_leaderboards:
  "logged (fst (update_leaderboards e u w)) = logged w"
  by (simp add: update_leaderboards_def split: prod.split)

lemma distribute_logs_failure:
  "snd (distributeReferralXP_try e R uid x w) = Some m
   \<Longrightarrow> Error_DistributingReferralXP m \<in> set (logged (distributeReferralXP e R uid x w))"
  by (cases "distributeReferralXP_try e R uid x w") (simp add: distributeReferralXP_def logger_def)

lemma tap_after_save:
  assumes "lookup tid w = Some u"
    and "rejects e (User_findOne_telegramId tid) = None"
    and "cooling (now e) u = None"
    and "apply_tap (now e) u = (u', msgs)"
    and "save e u' (w\<lparr>logged := logged w @ msgs\<rparr>) = Inr w2"
    and "w3 = distributeReferralXP e userController_Referral (user_id u') (computePower u) w2"
  shows "tap e tid w =
      (case snd (update_leaderboards e u' w3) of
         None \<Rightarrow> (TapSuccessful (snapshot u'),
                  logger (Info_SuccessfulTap (telegramId u')) (fst (update_leaderboards e u' w3)))
       | Some m \<Rightarrow> tap_catch m (fst (update_leaderboards e u' w3)))"
  using assms
  by (cases "update_leaderboards e u' w3")
    (simp add: tap_def User_findOne_def lookup_def Let_def split: option.split)

lemma apply_tap_snd_count:
  "count_list (snd (apply_tap t u)) (Info_CooldownInitiated (telegramId u))
     = (if (totalTaps u + 1) mod 500 = 0 then 1 else 0)"
  by (simp add: apply_tap_def Let_def js_rem_eq_0_iff mod_eq_0_iff_dvd split: prod.split)

lemma logged_distribute_count:
  "count_list (logged (distributeReferralXP e R uid x w)) (Info_CooldownInitiated tid)
     = count_list (logged (fst (distributeReferralXP_try e R uid x w))) (Info_CooldownInitiated tid)"
  by (cases "distributeReferralXP_try e R uid x w")
    (simp add: distributeReferralXP_def logger_def split: option.split)

lemma logged_distribute_try_unbound:
  "logged (fst (distributeReferralXP_try e None uid x w)) = logged w"
  by (simp add: distributeReferralXP_try_def referral_loop_unbound split: option.split)

text \<open>
  A persisted tap writes the line on the cooldown exactly when the new number of taps is a
  multiple of 500.
\<close>

lemma tap_cooldowns_initiated:
  assumes "lookup tid w = Some u"
    and "rejects e (User_findOne_telegramId tid) = None"
    and "cooling (now e) u = None"
    and "rejects e (User_save (user_id u)) = None"
  shows "cooldowns_initiated tid (snd (tap e tid w))
      = cooldowns_initiated tid w + (if (totalTaps u + 1) mod 500 = 0 then 1 else 0)"
proof -
  obtain u' msgs where a: "apply_tap (now e) u = (u', msgs)"
    by (cases "apply_tap (now e) u")
  have id: "user_id u' = user_id u"
    using apply_tap_ids(2)[of "now e" u] a by simp
  have tg: "telegramId u = tid"
    using assms(1) by (rule lookup_telegramId)
  define w2 where "w2 = w\<lparr>logged := logged w @ msgs,
     users := map (\<lambda>v. if user_id v = user_id u then u' else v) (users w)\<rparr>"
  define w3 where "w3 = distributeReferralXP e userController_Referral (user_id u') (computePower u) w2"
  have sv: "save e u' (w\<lparr>logged := logged w @ msgs\<rparr>) = Inr w2"
    using assms(4) id by (simp add: save_def w2_def)
  note t = tap_after_save[OF assms(1-3) a sv w3_def]
  have c3: "count_list (logged w3) (Info_CooldownInitiated tid)
      = count_list (logged w2) (Info_CooldownInitiated tid)"
    by (simp add: w3_def userController_Referral_def logged_distribute_count
        logged_distribute_try_unbound)
  have cm: "count_list msgs (Info_CooldownInitiated tid)
      = (if (totalTaps u + 1) mod 500 = 0 then 1 else 0)"
    using apply_tap_snd_count[of "now e" u] a tg by simp
  have "count_list (logged (snd (tap e tid w))) (Info_CooldownInitiated tid)
      = count_list (logged w3) (Info_CooldownInitiated tid)"
    using t by (simp add: logger_def tap_catch_def logged_update_leaderboards split: option.split)
  then show ?thesis
    using c3 cm by (simp add: cooldowns_initiated_def w2_def)
qed

text \<open>
  Every tap answered with the snapshot was persisted.
\<close>

lemma tap_success_inv:
  assumes "tap e tid w = (TapSuccessful s, w')"
  shows "\<exists>u. lookup tid w = Some u \<and> rejects e (User_findOne_telegramId tid) = None
            \<and> cooling (now e) u = None \<and> rejects e (User_save (user_id u)) = None"
proof -
  have id: "\<And>v u' msgs. apply_tap (now e) v = (u', msgs) \<Longrightarrow> user_id u' = user_id v"
    using apply_tap_ids(2) by (metis fst_conv)
  show ?thesis
    using assms
    by (auto simp: tap_def User_findOne_def lookup_def tap_catch_def save_def Let_def
        split: option.splits sum.splits prod.splits dest: id)
qed

lemma taps_totalTaps:
  "taps es tid w = (rs, w') \<Longrightarrow> \<forall>r\<in>set rs. succeeded r \<Longrightarrow> lookup tid w = Some u
   \<Longrightarrow> \<exists>u'. lookup tid w' = Some u' \<and> totalTaps u' = totalTaps u + int (length es)"
proof (induction es arbitrary: w rs u)
  case Nil
  then show ?case by simp
next
  case (Cons e es)
  obtain r w1 where t: "tap e tid w = (r, w1)"
    by (cases "tap e tid w")
  obtain rs1 where ts: "taps es tid w1 = (rs1, w')" and rs: "rs = r # rs1"
    using Cons.prems(1) t by (auto split: prod.splits)
  from Cons.prems(2) rs obtain s where r: "r = TapSuccessful s"
    by (cases r) (auto simp: succeeded_def)
  from tap_success_inv[OF t[unfolded r]] Cons.prems(3)
  have pre: "rejects e (User_findOne_telegramId tid) = None" "cooling (now e) u = None"
    "rejects e (User_save (user_id u)) = None"
    by auto
  have l1: "lookup tid w1 = Some (fst (apply_tap (now e) u))"
    using tap_lookup[OF Cons.prems(3) pre] t by simp
  from Cons.IH[OF ts _ l1] Cons.prems(2) rs
  obtain u' where "lookup tid w' = Some u'"
    "totalTaps u' = totalTaps (fst (apply_tap (now e) u)) + int (length es)"
    by auto
  then show ?case
    by (simp add: apply_tap_fst)
qed

lemma multiples_of_500_step:
  "0 \<le> n \<Longrightarrow> multiples_of_500 t (t + 1 + n)
     = (if (t + 1) mod 500 = 0 then 1 else 0) + multiples_of_500 (t + 1) (t + 1 + n)"
  by (simp add: multiples_of_500_def upto_rec1[of "t + 1"])

lemma taps_cooldowns:
  "taps es tid w = (rs, w') \<Longrightarrow> \<forall>r\<in>set rs. succeeded r \<Longrightarrow> lookup tid w = Some u
   \<Longrightarrow> cooldowns_initiated tid w'
       = cooldowns_initiated tid w + multiples_of_500 (totalTaps u) (totalTaps u + int (length es))"
proof (induction es arbitrary: w rs u)
  case Nil
  then show ?case by (simp add: multiples_of_500_def)
next
  case (Cons e es)
  obtain r w1 where t: "tap e tid w = (r, w1)"
    by (cases "tap e tid w")
  obtain rs1 where ts: "taps es tid w1 = (rs1, w')" and rs: "rs = r # rs1"
    using Cons.prems(1) t by (auto split: prod.splits)
  from Cons.prems(2) rs obtain s where r: "r = TapSuccessful s"
    by (cases r) (auto simp: succeeded_def)
  from tap_success_inv[OF t[unfolded r]] Cons.prems(3)
  have pre: "rejects e (User_findOne_telegramId tid) = None" "cooling (now e) u = None"
    "rejects e (User_save (user_id u)) = None"
    by auto
  have l1: "lookup tid w1 = Some (fst (apply_tap (now e) u))"
    using tap_lookup[OF Cons.prems(3) pre] t by simp
  have c1: "cooldowns_initiated tid w1
      = cooldowns_initiated tid w + (if (totalTaps u + 1) mod 500 = 0 then 1 else 0)"
    using tap_cooldowns_initiated[OF Cons.prems(3) pre] t by simp
  have "cooldowns_initiated tid w'
      = cooldowns_initiated tid w1
        + multiples_of_500 (totalTaps u + 1) (totalTaps u + 1 + int (length es))"
    using Cons.IH[OF ts _ l1] Cons.prems(2) rs by (simp add: apply_tap_fst)
  then show ?case
    using c1 multiples_of_500_step[of "int (length es)" "totalTaps u"]
    by (simp add: add.commute add.left_commute)
qed

section \<open>Properties of tap: counters\<close>

text \<open>
  C1. When the user exists, no cooldown is active at the time of the tap and the database
  accepts the calls, the stored document has \<open>totalTaps\<close> raised by exactly one and
  \<open>xp\<close> and \<open>compute\<close> raised by the compute power the user had. Hence after a run
  of \<open>N\<close> tap requests that all succeeded \<open>totalTaps\<close> is its initial value plus \<open>N\<close>.
\<close>

theorem tap_increments:
  "(lookup tid w = Some u \<and> rejects e (User_findOne_telegramId tid) = None
      \<and> cooling (now e) u = None \<and> rejects e (User_save (user_id u)) = None
    \<longrightarrow> (\<exists>u'. lookup tid (snd (tap e tid w)) = Some u'
           \<and> totalTaps u' = totalTaps u + 1
           \<and> xp u' = xp u + computePower u
           \<and> compute u' = compute u + computePower u))
   \<and> (lookup tid w = Some u \<and> taps es tid w = (rs, w') \<and> (\<forall>r\<in>set rs. succeeded r)
    \<longrightarrow> (\<exists>u'. lookup tid w' = Some u' \<and> totalTaps u' = totalTaps u + int (length es)))"
proof (intro conjI impI)
  assume h: "lookup tid w = Some u \<and> rejects e (User_findOne_telegramId tid) = None
      \<and> cooling (now e) u = None \<and> rejects e (User_save (user_id u)) = None"
  then have "lookup tid (snd (tap e tid w)) = Some (fst (apply_tap (now e) u))"
    by (intro tap_lookup) simp_all
  then show "\<exists>u'. lookup tid (snd (tap e tid w)) = Some u'
           \<and> totalTaps u' = totalTaps u + 1
           \<and> xp u' = xp u + computePower u
           \<and> compute u' = compute u + computePower u"
    by (simp add: apply_tap_fst)
next
  assume "lookup tid w = Some u \<and> taps es tid w = (rs, w') \<and> (\<forall>r\<in>set rs. succeeded r)"
  then show "\<exists>u'. lookup tid w' = Some u' \<and> totalTaps u' = totalTaps u + int (length es)"
    using taps_totalTaps by blast
qed

theorem tap_increments_witness:
  "lookup 7 (world_of [alice] [] []) = Some alice
   \<and> rejects env_ok (User_findOne_telegramId 7) = None
   \<and> cooling (now env_ok) alice = None
   \<and> rejects env_ok (User_save (user_id alice)) = None
   \<and> (\<exists>u'. lookup 7 (snd (tap env_ok 7 (world_of [alice] [] []))) = Some u'
          \<and> totalTaps u' = totalTaps alice + 1
          \<and> xp u' = xp alice + computePower alice
          \<and> compute u' = compute alice + computePower alice)
   \<and> list_all succeeded (fst (taps run2 7 (world_of [alice] [] [])))
   \<and> (\<exists>u'. lookup 7 (snd (taps run2 7 (world_of [alice] [] []))) = Some u'
          \<and> totalTaps u' = totalTaps alice + int (length run2))"
proof -
  have h1: "lookup 7 (world_of [alice] [] []) = Some alice
   \<and> rejects env_ok (User_findOne_telegramId 7) = None
   \<and> cooling (now env_ok) alice = None
   \<and> rejects env_ok (User_save (user_id alice)) = None"
    by code_simp
  have h2: "list_all succeeded (fst (taps run2 7 (world_of [alice] [] [])))"
    by code_simp
  then have "\<forall>r\<in>set (fst (taps run2 7 (world_of [alice] [] []))). succeeded r"
    by (simp add: list_all_iff)
  then show ?thesis
    using h1 h2
      tap_increments[of 7 "world_of [alice] [] []" alice env_ok run2
        "fst (taps run2 7 (world_of [alice] [] []))" "snd (taps run2 7 (world_of [alice] [] []))"]
    by simp
qed

section \<open>Properties of tap: cooldown\<close>

text \<open>
  C2. A tap of a user whose \<open>cooldownEndTime\<close> is set, at a time strictly before it, is
  answered with \<open>Cooldown\<close> carrying the stored time; the state is the old one but for
  the line written to the log, so no field of the user's document changes.
\<close>

theorem tap_cooldown_rejects:
  assumes "lookup tid w = Some u"
    and "rejects e (User_findOne_telegramId tid) = None"
    and "cooldownEndTime u = Some c"
    and "now e < c"
  shows "fst (tap e tid w) = Cooldown c
     \<and> snd (tap e tid w) = w\<lparr>logged := logged w @ [Info_TapRejectedCooldown tid]\<rparr>
     \<and> lookup tid (snd (tap e tid w)) = Some u"
proof -
  have "telegramId u = tid"
    using assms(1) by (rule lookup_telegramId)
  then have "tap e tid w = (Cooldown c, w\<lparr>logged := logged w @ [Info_TapRejectedCooldown tid]\<rparr>)"
    using assms by (simp add: tap_def User_findOne_def lookup_def cooling_def logger_def)
  then show ?thesis
    using assms(1) by (simp add: lookup_def)
qed

theorem tap_cooldown_rejects_witness:
  "lookup 7 (world_of [cooling_alice] [] []) = Some cooling_alice
   \<and> rejects env_ok (User_findOne_telegramId 7) = None
   \<and> cooldownEndTime cooling_alice = Some 5000
   \<and> now env_ok < 5000
   \<and> fst (tap env_ok 7 (world_of [cooling_alice] [] [])) = Cooldown 5000
   \<and> snd (tap env_ok 7 (world_of [cooling_alice] [] []))
       = (world_of [cooling_alice] [] [])\<lparr>logged := logged (world_of [cooling_alice] [] []) @ [Info_TapRejectedCooldown 7]\<rparr>
   \<and> lookup 7 (snd (tap env_ok 7 (world_of [cooling_alice] [] []))) = Some cooling_alice"
proof -
  have h: "lookup 7 (world_of [cooling_alice] [] []) = Some cooling_alice"
    "rejects env_ok (User_findOne_telegramId 7) = None"
    "cooldownEndTime cooling_alice = Some 5000"
    "now env_ok < 5000"
    by code_simp+
  show ?thesis
    using h tap_cooldown_rejects[OF h] by blast
qed

text \<open>
  C3. A persisted tap that brings \<open>totalTaps\<close> to a positive multiple of 500 sets
  \<open>cooldownEndTime\<close> to the time of the tap plus ten seconds; a persisted tap whose
  resulting \<open>totalTaps\<close> is no multiple of 500 leaves \<open>cooldownEndTime\<close> as it was. The
  timer is set once for each multiple reached: over a run of tap requests that all succeeded,
  the handler began a cooldown (the branch that sets the timer and writes the log line) as
  often as there are multiples of 500 above the initial and up to the final \<open>totalTaps\<close>.
\<close>

theorem tap_cooldown_trigger:
  "(lookup tid w = Some u \<and> rejects e (User_findOne_telegramId tid) = None
      \<and> cooling (now e) u = None \<and> rejects e (User_save (user_id u)) = None
    \<longrightarrow> (\<exists>u'. lookup tid (snd (tap e tid w)) = Some u'
          \<and> totalTaps u' = totalTaps u + 1
          \<and> (0 < totalTaps u' \<and> totalTaps u' mod 500 = 0
               \<longrightarrow> cooldownEndTime u' = Some (now e + 10 * 1000))
          \<and> (totalTaps u' mod 500 \<noteq> 0 \<longrightarrow> cooldownEndTime u' = cooldownEndTime u)))
   \<and> (lookup tid w = Some u \<and> taps es tid w = (rs, w') \<and> (\<forall>r\<in>set rs. succeeded r)
    \<longrightarrow> cooldowns_initiated tid w'
          = cooldowns_initiated tid w
            + multiples_of_500 (totalTaps u) (totalTaps u + int (length es)))"
proof (rule conjI; rule impI)
  assume h: "lookup tid w = Some u \<and> rejects e (User_findOne_telegramId tid) = None
      \<and> cooling (now e) u = None \<and> rejects e (User_save (user_id u)) = None"
  then have "lookup tid (snd (tap e tid w)) = Some (fst (apply_tap (now e) u))"
    by (intro tap_lookup) simp_all
  then show "\<exists>u'. lookup tid (snd (tap e tid w)) = Some u'
          \<and> totalTaps u' = totalTaps u + 1
          \<and> (0 < totalTaps u' \<and> totalTaps u' mod 500 = 0
               \<longrightarrow> cooldownEndTime u' = Some (now e + 10 * 1000))
          \<and> (totalTaps u' mod 500 \<noteq> 0 \<longrightarrow> cooldownEndTime u' = cooldownEndTime u)"
    by (simp add: apply_tap_fst mod_eq_0_iff_dvd)
next
  assume "lookup tid w = Some u \<and> taps es tid w = (rs, w') \<and> (\<forall>r\<in>set rs. succeeded r)"
  then show "cooldowns_initiated tid w'
          = cooldowns_initiated tid w
            + multiples_of_500 (totalTaps u) (totalTaps u + int (length es))"
    using taps_cooldowns by blast
qed

theorem tap_cooldown_trigger_witness:
  "lookup 7 (world_of [alice_499] [] []) = Some alice_499
   \<and> rejects env_ok (User_findOne_telegramId 7) = None
   \<and> cooling (now env_ok) alice_499 = None
   \<and> rejects env_ok (User_save (user_id alice_499)) = None
   \<and> (\<exists>u'. lookup 7 (snd (tap env_ok 7 (world_of [alice_499] [] []))) = Some u'
        \<and> totalTaps u' = 500 \<and> xp u' = 1 \<and> cooldownEndTime u' = Some (now env_ok + 10 * 1000))
   \<and> list_all succeeded (fst (taps run_499 7 (world_of [alice_499] [] [])))
   \<and> cooldowns_initiated 7 (snd (taps run_499 7 (world_of [alice_499] [] [])))
       = cooldowns_initiated 7 (world_of [alice_499] [] [])
         + multiples_of_500 (totalTaps alice_499) (totalTaps alice_499 + int (length run_499))
   \<and> cooldowns_initiated 7 (world_of [alice_499] [] []) = 0
   \<and> multiples_of_500 (totalTaps alice_499) (totalTaps alice_499 + int (length run_499)) = 1"
proof -
  have h: "lookup 7 (world_of [alice_499] [] []) = Some alice_499"
    "rejects env_ok (User_findOne_telegramId 7) = None"
    "cooling (now env_ok) alice_499 = None"
    "rejects env_ok (User_save (user_id alice_499)) = None"
    by code_simp+
  have t: "totalTaps alice_499 = 499"
    by code_simp
  have x: "map_option xp (lookup 7 (snd (tap env_ok 7 (world_of [alice_499] [] [])))) = Some 1"
    by code_simp
  have r: "list_all succeeded (fst (taps run_499 7 (world_of [alice_499] [] [])))"
    by code_simp
  then have r': "\<forall>r\<in>set (fst (taps run_499 7 (world_of [alice_499] [] []))). succeeded r"
    by (simp add: list_all_iff)
  have c: "cooldowns_initiated 7 (world_of [alice_499] [] []) = 0"
    "multiples_of_500 (totalTaps alice_499) (totalTaps alice_499 + int (length run_499)) = 1"
    by code_simp+
  note inst = tap_cooldown_trigger[of 7 "world_of [alice_499] [] []" alice_499 env_ok run_499
      "fst (taps run_499 7 (world_of [alice_499] [] []))"
      "snd (taps run_499 7 (world_of [alice_499] [] []))"]
  have a: "\<exists>u'. lookup 7 (snd (tap env_ok 7 (world_of [alice_499] [] []))) = Some u'
        \<and> totalTaps u' = 500 \<and> xp u' = 1 \<and> cooldownEndTime u' = Some (now env_ok + 10 * 1000)"
    using h t x inst by auto
  have b: "cooldowns_initiated 7 (snd (taps run_499 7 (world_of [alice_499] [] [])))
       = cooldowns_initiated 7 (world_of [alice_499] [] [])
         + multiples_of_500 (totalTaps alice_499) (totalTaps alice_499 + int (length run_499))"
    using h(1) r' inst by simp
  show ?thesis
    using h a r b c by blast
qed

section \<open>Properties of tap: rewards\<close>

text \<open>
  C4. On a persisted tap, when the xp after the increment is at least
  \<open>(gpuLevel + 1) * 25000\<close>, \<open>gpuLevel\<close> and \<open>computePower\<close> rise by exactly one, however
  far the xp is above the threshold (the test is made once); below the threshold both stay.
  A user with xp 24999, compute power 1 and level 0 ends with xp 25000, level 1 and compute
  power 2.
\<close>

theorem tap_gpu_upgrade:
  assumes "lookup tid w = Some u"
    and "rejects e (User_findOne_telegramId tid) = None"
    and "cooling (now e) u = None"
    and "rejects e (User_save (user_id u)) = None"
  shows "\<exists>u'. lookup tid (snd (tap e tid w)) = Some u'
      \<and> xp u' = xp u + computePower u
      \<and> (xp u' \<ge> (gpuLevel u + 1) * 25000
           \<longrightarrow> gpuLevel u' = gpuLevel u + 1 \<and> computePower u' = computePower u + 1)
      \<and> (xp u' < (gpuLevel u + 1) * 25000
           \<longrightarrow> gpuLevel u' = gpuLevel u \<and> computePower u' = computePower u)"
proof -
  have "lookup tid (snd (tap e tid w)) = Some (fst (apply_tap (now e) u))"
    using assms by (rule tap_lookup)
  then show ?thesis
    by (simp add: apply_tap_fst)
qed

theorem tap_gpu_upgrade_witness:
  "lookup 7 (world_of [alice_24999] [] []) = Some alice_24999
   \<and> rejects env_ok (User_findOne_telegramId 7) = None
   \<and> cooling (now env_ok) alice_24999 = None
   \<and> rejects env_ok (User_save (user_id alice_24999)) = None
   \<and> xp alice_24999 = 24999 \<and> computePower alice_24999 = 1 \<and> gpuLevel alice_24999 = 0
   \<and> (\<exists>u'. lookup 7 (snd (tap env_ok 7 (world_of [alice_24999] [] []))) = Some u'
        \<and> xp u' = 25000 \<and> gpuLevel u' = 1 \<and> computePower u' = 2)
   \<and> lookup 7 (world_of [alice_rich] [] []) = Some alice_rich
   \<and> cooling (now env_ok) alice_rich = None
   \<and> rejects env_ok (User_save (user_id alice_rich)) = None
   \<and> xp alice_rich = 60000 \<and> computePower alice_rich = 1 \<and> gpuLevel alice_rich = 0
   \<and> (\<exists>u'. lookup 7 (snd (tap env_ok 7 (world_of [alice_rich] [] []))) = Some u'
        \<and> xp u' = 60001 \<and> gpuLevel u' = 1 \<and> computePower u' = 2)"
proof -
  have h: "lookup 7 (world_of [alice_24999] [] []) = Some alice_24999"
    "rejects env_ok (User_findOne_telegramId 7) = None"
    "cooling (now env_ok) alice_24999 = None"
    "rejects env_ok (User_save (user_id alice_24999)) = None"
    by code_simp+
  have v: "xp alice_24999 = 24999" "computePower alice_24999 = 1" "gpuLevel alice_24999 = 0"
    by code_simp+
  have k: "lookup 7 (world_of [alice_rich] [] []) = Some alice_rich"
    "rejects env_ok (User_findOne_telegramId 7) = None"
    "cooling (now env_ok) alice_rich = None"
    "rejects env_ok (User_save (user_id alice_rich)) = None"
    by code_simp+
  have r: "xp alice_rich = 60000" "computePower alice_rich = 1" "gpuLevel alice_rich = 0"
    by code_simp+
  have a: "\<exists>u'. lookup 7 (snd (tap env_ok 7 (world_of [alice_24999] [] []))) = Some u'
        \<and> xp u' = 25000 \<and> gpuLevel u' = 1 \<and> computePower u' = 2"
    using tap_gpu_upgrade[OF h] v by auto
  have b: "\<exists>u'. lookup 7 (snd (tap env_ok 7 (world_of [alice_rich] [] []))) = Some u'
        \<and> xp u' = 60001 \<and> gpuLevel u' = 1 \<and> computePower u' = 2"
    using tap_gpu_upgrade[OF k] r by auto
  show ?thesis
    using h v k r a b by blast
qed

text \<open>
  C5. On a persisted tap \<open>boostCount\<close> rises by exactly one when the xp after the tap is a
  multiple of 2000, and stays otherwise: a tap that takes the xp from 1999 to 2001 crosses
  2000 and earns no boost.
\<close>

theorem tap_boost_count:
  assumes "lookup tid w = Some u"
    and "rejects e (User_findOne_telegramId tid) = None"
    and "cooling (now e) u = None"
    and "rejects e (User_save (user_id u)) = None"
  shows "\<exists>u'. lookup tid (snd (tap e tid w)) = Some u'
      \<and> xp u' = xp u + computePower u
      \<and> (xp u' mod 2000 = 0 \<longrightarrow> boostCount u' = boostCount u + 1)
      \<and> (xp u' mod 2000 \<noteq> 0 \<longrightarrow> boostCount u' = boostCount u)"
proof -
  have "lookup tid (snd (tap e tid w)) = Some (fst (apply_tap (now e) u))"
    using assms by (rule tap_lookup)
  then show ?thesis
    by (simp add: apply_tap_fst mod_eq_0_iff_dvd)
qed

theorem tap_boost_count_witness:
  "lookup 7 (world_of [alice_1999] [] []) = Some alice_1999
   \<and> rejects env_ok (User_findOne_telegramId 7) = None
   \<and> cooling (now env_ok) alice_1999 = None
   \<and> rejects env_ok (User_save (user_id alice_1999)) = None
   \<and> xp alice_1999 = 1999 \<and> computePower alice_1999 = 1 \<and> boostCount alice_1999 = 0
   \<and> (\<exists>u'. lookup 7 (snd (tap env_ok 7 (world_of [alice_1999] [] []))) = Some u'
        \<and> xp u' = 2000 \<and> boostCount u' = 1)
   \<and> lookup 7 (world_of [alice_1999_fast] [] []) = Some alice_1999_fast
   \<and> cooling (now env_ok) alice_1999_fast = None
   \<and> rejects env_ok (User_save (user_id alice_1999_fast)) = None
   \<and> xp alice_1999_fast = 1999 \<and> computePower alice_1999_fast = 2 \<and> boostCount alice_1999_fast = 0
   \<and> (\<exists>u'. lookup 7 (snd (tap env_ok 7 (world_of [alice_1999_fast] [] []))) = Some u'
        \<and> xp u' = 2001 \<and> boostCount u' = 0)"
proof -
  have h: "lookup 7 (world_of [alice_1999] [] []) = Some alice_1999"
    "rejects env_ok (User_findOne_telegramId 7) = None"
    "cooling (now env_ok) alice_1999 = None"
    "rejects env_ok (User_save (user_id alice_1999)) = None"
    by code_simp+
  have v: "xp alice_1999 = 1999" "computePower alice_1999 = 1" "boostCount alice_1999 = 0"
    by code_simp+
  have k: "lookup 7 (world_of [alice_1999_fast] [] []) = Some alice_1999_fast"
    "rejects env_ok (User_findOne_telegramId 7) = None"
    "cooling (now env_ok) alice_1999_fast = None"
    "rejects env_ok (User_save (user_id alice_1999_fast)) = None"
    by code_simp+
  have r: "xp alice_1999_fast = 1999" "computePower alice_1999_fast = 2" "boostCount alice_1999_fast = 0"
    by code_simp+
  have a: "\<exists>u'. lookup 7 (snd (tap env_ok 7 (world_of [alice_1999] [] []))) = Some u'
        \<and> xp u' = 2000 \<and> boostCount u' = 1"
    using tap_boost_count[OF h] v by auto
  have b: "\<exists>u'. lookup 7 (snd (tap env_ok 7 (world_of [alice_1999_fast] [] []))) = Some u'
        \<and> xp u' = 2001 \<and> boostCount u' = 0"
    using tap_boost_count[OF k] r by auto
  show ?thesis
    using h v k r a b by blast
qed

section \<open>Properties of boost\<close>

lemma apply_boost_eq:
  "apply_boost t u =
     u\<lparr>boostCount := boostCount u - 1,
       lastBoostTime := Some t,
       totalTaps := totalTaps u + 100,
       xp := xp u + 100 * computePower u,
       compute := compute u + 100 * computePower u,
       cooldownEndTime := None\<rparr>"
  by (simp add: apply_boost_def Let_def)

text \<open>
  C6. A boost of a user with at least one boost left lowers \<open>boostCount\<close> by one, raises
  \<open>totalTaps\<close> by 100 and \<open>xp\<close> and \<open>compute\<close> by 100 times the compute power, sets
  \<open>cooldownEndTime\<close> to null whatever it was, and records \<open>lastBoostTime\<close>. Neither the
  GPU upgrade nor the boost reward of a tap happens: \<open>gpuLevel\<close> and \<open>computePower\<close> stay,
  and \<open>boostCount\<close> ends one lower even when the new xp is a multiple of 2000.
\<close>

theorem boost_effect:
  assumes "lookup tid w = Some u"
    and "rejects e (User_findOne_telegramId tid) = None"
    and "boostCount u \<ge> 1"
    and "rejects e (User_save (user_id u)) = None"
  shows "\<exists>u'. lookup tid (snd (boost e tid w)) = Some u'
      \<and> fst (boost e tid w) = BoostActivated (boost_snapshot_of u')
      \<and> boostCount u' = boostCount u - 1
      \<and> totalTaps u' = totalTaps u + 100
      \<and> xp u' = xp u + 100 * computePower u
      \<and> compute u' = compute u + 100 * computePower u
      \<and> cooldownEndTime u' = None
      \<and> lastBoostTime u' = Some (now e)
      \<and> gpuLevel u' = gpuLevel u
      \<and> computePower u' = computePower u"
proof -
  let ?u = "apply_boost (now e) u"
  have ids: "user_id ?u = user_id u" "telegramId ?u = tid"
    using lookup_telegramId[OF assms(1)] by (simp_all add: apply_boost_eq)
  have b: "boost e tid w =
      (BoostActivated (boost_snapshot_of ?u),
       w\<lparr>users := map (\<lambda>v. if user_id v = user_id ?u then ?u else v) (users w)\<rparr>)"
    using assms ids by (simp add: boost_def User_findOne_def lookup_def save_def Let_def)
  have "find (\<lambda>v. telegramId v = tid)
          (map (\<lambda>v. if user_id v = user_id ?u then ?u else v) (users w)) = Some ?u"
    using assms(1) ids by (intro find_replace) (simp_all add: lookup_def)
  then have "lookup tid (snd (boost e tid w)) = Some ?u"
    using b by (simp add: lookup_def)
  then show ?thesis
    using b by (simp add: apply_boost_eq)
qed

theorem boost_effect_witness:
  "lookup 7 (world_of [alice_boosted] [] []) = Some alice_boosted
   \<and> rejects env_ok (User_findOne_telegramId 7) = None
   \<and> boostCount alice_boosted \<ge> 1
   \<and> rejects env_ok (User_save (user_id alice_boosted)) = None
   \<and> cooldownEndTime alice_boosted = Some 5000 \<and> now env_ok < 5000
   \<and> (\<exists>u'. lookup 7 (snd (boost env_ok 7 (world_of [alice_boosted] [] []))) = Some u'
        \<and> fst (boost env_ok 7 (world_of [alice_boosted] [] [])) = BoostActivated (boost_snapshot_of u')
        \<and> boostCount u' = 0 \<and> totalTaps u' = 100 \<and> xp u' = 26000 \<and> compute u' = 100
        \<and> cooldownEndTime u' = None \<and> lastBoostTime u' = Some 1000
        \<and> gpuLevel u' = 0 \<and> computePower u' = 1)"
proof -
  have h: "lookup 7 (world_of [alice_boosted] [] []) = Some alice_boosted"
    "rejects env_ok (User_findOne_telegramId 7) = None"
    "boostCount alice_boosted \<ge> 1"
    "rejects env_ok (User_save (user_id alice_boosted)) = None"
    by code_simp+
  have v: "cooldownEndTime alice_boosted = Some 5000" "now env_ok < 5000"
    "boostCount alice_boosted = 1" "totalTaps alice_boosted = 0" "xp alice_boosted = 25900"
    "compute alice_boosted = 0" "gpuLevel alice_boosted = 0" "computePower alice_boosted = 1"
    "now env_ok = 1000"
    by code_simp+
  have a: "\<exists>u'. lookup 7 (snd (boost env_ok 7 (world_of [alice_boosted] [] []))) = Some u'
        \<and> fst (boost env_ok 7 (world_of [alice_boosted] [] [])) = BoostActivated (boost_snapshot_of u')
        \<and> boostCount u' = 0 \<and> totalTaps u' = 100 \<and> xp u' = 26000 \<and> compute u' = 100
        \<and> cooldownEndTime u' = None \<and> lastBoostTime u' = Some 1000
        \<and> gpuLevel u' = 0 \<and> computePower u' = 1"
    using boost_effect[OF h] v by auto
  show ?thesis
    using h v(1,2) a by blast
qed

section \<open>Properties of the referral propagation\<close>

text \<open>
  C7. \<open>distributeReferralXP\<close> with 1000 xp is to credit 100, 50 and 25 xp to the three
  ancestors and to raise the counters of the edges walked. It does not: in the controller the
  identifier \<open>Referral\<close> is unbound: on the chain of five users the first round of the loop
  throws before the first ancestor is saved, the error is logged, and no xp and no counter
  has changed.
\<close>

theorem referral_not_distributed:
  "distributeReferralXP env_ok userController_Referral 1 1000 chain
     = logger (Error_DistributingReferralXP ''Referral is not defined'') chain
   \<and> map xp (users (distributeReferralXP env_ok userController_Referral 1 1000 chain))
     = [0, 0, 0, 0, 0]
   \<and> map totalRewardsDistributed (referrals (distributeReferralXP env_ok userController_Referral 1 1000 chain))
     = [0, 0, 0, 0]"
  by code_simp

text \<open>
  The same holds for every state and every user: with the controller's binding no call of
  \<open>distributeReferralXP\<close> changes a user document or a referral edge.
\<close>

lemma referral_never_distributed:
  "users (distributeReferralXP e userController_Referral uid x w) = users w
   \<and> referrals (distributeReferralXP e userController_Referral uid x w) = referrals w"
  by (simp add: userController_Referral_def distributeReferralXP_def distributeReferralXP_try_def
      referral_loop_unbound logger_def split: option.split)

text \<open>
  With \<open>Referral\<close> bound to the model the three ancestors gain 100, 50 and 25 xp and the
  fourth gains nothing. The edge looked up in every round is the one from the current
  ancestor to the user who tapped, so only the edge of the first tier is counted up.
\<close>

lemma referral_if_bound:
  "map xp (users (distributeReferralXP env_ok (Some findOneAndUpdate_inc) 1 1000 chain))
     = [0, 100, 50, 25, 0]
   \<and> map totalRewardsDistributed
        (referrals (distributeReferralXP env_ok (Some findOneAndUpdate_inc) 1 1000 chain))
     = [100, 0, 0, 0]"
  by code_simp

section \<open>Properties of tap: failures of the fan-out\<close>

text \<open>
  C8, as the handler has it. Once the user's update is saved, an exception inside the referral
  propagation is logged there and goes no further: the response of the tap does not depend
  on it. The three leaderboard updates are awaited inside the handler's \<open>try\<close>: when the
  daily, the weekly and the all-time call all fulfil, the tap answers with the snapshot; when
  one of them rejects, the handler's \<open>catch\<close> logs the message of a call that rejected and
  answers with a server error carrying it, namely the message of the rejecting call that
  settled first. The saved update of the user stays in either case.
\<close>

theorem tap_fanout_failures:
  assumes "lookup tid w = Some u"
    and "rejects e (User_findOne_telegramId tid) = None"
    and "cooling (now e) u = None"
    and "apply_tap (now e) u = (u', msgs)"
    and "save e u' (w\<lparr>logged := logged w @ msgs\<rparr>) = Inr w2"
    and "daily_call e u' (leaderboard w2) = d"
    and "weekly_call e u' (settled d (leaderboard w2)) = wk"
    and "allTime_call e u' (settled wk (settled d (leaderboard w2))) = a"
  shows "lookup tid (snd (tap e tid w)) = Some u'
     \<and> (\<forall>m. snd (distributeReferralXP_try e userController_Referral (user_id u') (computePower u) w2) = Some m
          \<longrightarrow> Error_DistributingReferralXP m \<in> set (logged (snd (tap e tid w))))
     \<and> ((\<exists>x. d = Inr x) \<and> (\<exists>x. wk = Inr x) \<and> (\<exists>x. a = Inr x)
          \<longrightarrow> fst (tap e tid w) = TapSuccessful (snapshot u'))
     \<and> ((\<exists>m. d = Inl m \<or> wk = Inl m \<or> a = Inl m)
          \<longrightarrow> (\<exists>m. (d = Inl m \<or> wk = Inl m \<or> a = Inl m)
                \<and> fst (tap e tid w) = ServerError m
                \<and> last (logged (snd (tap e tid w))) = Error_Tap m))
     \<and> (\<forall>m. first_rejection (settleOrder e) [rejection d, rejection wk, rejection a] = Some m
          \<longrightarrow> fst (tap e tid w) = ServerError m
              \<and> last (logged (snd (tap e tid w))) = Error_Tap m)"
proof -
  define w3 where "w3 = distributeReferralXP e userController_Referral (user_id u') (computePower u) w2"
  note t = tap_after_save[OF assms(1-5) w3_def]
  have id: "user_id u' = user_id u"
    using apply_tap_ids(2)[of "now e" u] assms(4) by simp
  have sv: "rejects e (User_save (user_id u)) = None"
    using assms(5) id by (simp add: save_def split: option.splits)
  have lb: "leaderboard w3 = leaderboard w2"
    by (simp add: w3_def userController_Referral_def leaderboard_distribute_unbound)
  have "snd (update_leaderboards e u' w3) = snd (update_leaderboards e u' w2)"
    using lb by (rule update_leaderboards_error)
  then have err: "snd (update_leaderboards e u' w3)
      = first_rejection (settleOrder e) [rejection d, rejection wk, rejection a]"
    using assms(6-8) by (simp add: update_leaderboards_calls)
  have lg: "logged (snd (tap e tid w)) = logged w3 @ [last (logged (snd (tap e tid w)))]"
    using t by (simp add: logger_def tap_catch_def logged_update_leaderboards split: option.split)
  have p1: "lookup tid (snd (tap e tid w)) = Some u'"
    using tap_lookup[OF assms(1-3) sv] assms(4) by simp
  have p2: "Error_DistributingReferralXP m \<in> set (logged (snd (tap e tid w)))"
    if "snd (distributeReferralXP_try e userController_Referral (user_id u') (computePower u) w2) = Some m" for m
  proof -
    have "Error_DistributingReferralXP m \<in> set (logged w3)"
      unfolding w3_def using that by (rule distribute_logs_failure)
    then show ?thesis
      using lg by (metis Un_iff set_append)
  qed
  have p5: "fst (tap e tid w) = ServerError m \<and> last (logged (snd (tap e tid w))) = Error_Tap m"
    if "first_rejection (settleOrder e) [rejection d, rejection wk, rejection a] = Some m" for m
    using t that err by (simp add: tap_catch_def logger_def)
  have p3: "fst (tap e tid w) = TapSuccessful (snapshot u')"
    if "(\<exists>x. d = Inr x) \<and> (\<exists>x. wk = Inr x) \<and> (\<exists>x. a = Inr x)"
  proof -
    have "first_rejection (settleOrder e) [rejection d, rejection wk, rejection a] = None"
      using that by (auto simp: first_rejection_None_iff rejection_def)
    then show ?thesis
      using t err by simp
  qed
  have p4: "\<exists>m. (d = Inl m \<or> wk = Inl m \<or> a = Inl m)
      \<and> fst (tap e tid w) = ServerError m \<and> last (logged (snd (tap e tid w))) = Error_Tap m"
    if "\<exists>m. d = Inl m \<or> wk = Inl m \<or> a = Inl m"
  proof -
    have "first_rejection (settleOrder e) [rejection d, rejection wk, rejection a] \<noteq> None"
      using that by (auto simp: first_rejection_None_iff rejection_def)
    then obtain m where
      m: "first_rejection (settleOrder e) [rejection d, rejection wk, rejection a] = Some m"
      by auto
    from first_rejection_Some_mem[OF m] have "d = Inl m \<or> wk = Inl m \<or> a = Inl m"
      by (auto simp: rejection_def split: sum.splits)
    then show ?thesis
      using p5[OF m] by blast
  qed
  show ?thesis
    using p1 p2 p3 p4 p5 by blast
qed

text \<open>
  C8 as stated fails: with the weekly leaderboard update rejecting, the user's update is
  saved and the tap still answers with the server error, not with the snapshot.
\<close>

theorem tap_leaderboard_failure_surfaces:
  "save env_weekly_down (tapped alice) (world_of [alice] [] []) = Inr alice_saved
   \<and> lookup 7 (snd (tap env_weekly_down 7 (world_of [alice] [] []))) = Some (tapped alice)
   \<and> totalTaps (tapped alice) = 1
   \<and> fst (tap env_weekly_down 7 (world_of [alice] [] [])) = ServerError ''leaderboard unavailable''
   \<and> fst (tap env_weekly_down 7 (world_of [alice] [] [])) \<noteq> TapSuccessful (snapshot (tapped alice))"
  by code_simp

theorem tap_fanout_failures_witness:
  "lookup 11 chain = Some (member 1 (Some 2))
   \<and> rejects env_ok (User_findOne_telegramId 11) = None
   \<and> cooling (now env_ok) (member 1 (Some 2)) = None
   \<and> apply_tap (now env_ok) (member 1 (Some 2)) = (tapped (member 1 (Some 2)), [])
   \<and> save env_ok (tapped (member 1 (Some 2))) (chain\<lparr>logged := logged chain @ []\<rparr>) = Inr chain_saved
   \<and> snd (distributeReferralXP_try env_ok userController_Referral
             (user_id (tapped (member 1 (Some 2)))) (computePower (member 1 (Some 2))) chain_saved)
       = Some ''Referral is not defined''
   \<and> (\<exists>x. daily_call env_ok (tapped (member 1 (Some 2))) (leaderboard chain_saved) = Inr x)
   \<and> (\<exists>x. weekly_call env_ok (tapped (member 1 (Some 2)))
             (settled (daily_call env_ok (tapped (member 1 (Some 2))) (leaderboard chain_saved))
                (leaderboard chain_saved)) = Inr x)
   \<and> (\<exists>x. allTime_call env_ok (tapped (member 1 (Some 2)))
             (settled (weekly_call env_ok (tapped (member 1 (Some 2)))
                         (settled (daily_call env_ok (tapped (member 1 (Some 2))) (leaderboard chain_saved))
                            (leaderboard chain_saved)))
                (settled (daily_call env_ok (tapped (member 1 (Some 2))) (leaderboard chain_saved))
                   (leaderboard chain_saved))) = Inr x)
   \<and> Error_DistributingReferralXP ''Referral is not defined'' \<in> set (logged (snd (tap env_ok 11 chain)))
   \<and> fst (tap env_ok 11 chain) = TapSuccessful (snapshot (tapped (member 1 (Some 2))))
   \<and> lookup 7 (world_of [alice] [] []) = Some alice
   \<and> rejects env_two_down (User_findOne_telegramId 7) = None
   \<and> cooling (now env_two_down) alice = None
   \<and> apply_tap (now env_two_down) alice = (tapped alice, [])
   \<and> save env_two_down (tapped alice) ((world_of [alice] [] [])\<lparr>logged := logged (world_of [alice] [] []) @ []\<rparr>) = Inr alice_saved
   \<and> daily_call env_two_down (tapped alice) (leaderboard alice_saved) = Inl ''daily unavailable''
   \<and> weekly_call env_two_down (tapped alice)
        (settled (Inl ''daily unavailable'') (leaderboard alice_saved)) = Inl ''weekly unavailable''
   \<and> first_rejection (settleOrder env_two_down)
        [rejection (Inl ''daily unavailable''), rejection (Inl ''weekly unavailable''),
         rejection (allTime_call env_two_down (tapped alice)
           (settled (Inl ''weekly unavailable'') (settled (Inl ''daily unavailable'') (leaderboard alice_saved))))]
       = Some ''weekly unavailable''
   \<and> fst (tap env_two_down 7 (world_of [alice] [] [])) = ServerError ''weekly unavailable''
   \<and> last (logged (snd (tap env_two_down 7 (world_of [alice] [] [])))) = Error_Tap ''weekly unavailable''
   \<and> lookup 7 (snd (tap env_two_down 7 (world_of [alice] [] []))) = Some (tapped alice)"
proof -
  have h: "lookup 11 chain = Some (member 1 (Some 2))"
    "rejects env_ok (User_findOne_telegramId 11) = None"
    "cooling (now env_ok) (member 1 (Some 2)) = None"
    "apply_tap (now env_ok) (member 1 (Some 2)) = (tapped (member 1 (Some 2)), [])"
    "save env_ok (tapped (member 1 (Some 2))) (chain\<lparr>logged := logged chain @ []\<rparr>) = Inr chain_saved"
    by code_simp+
  have r: "snd (distributeReferralXP_try env_ok userController_Referral
             (user_id (tapped (member 1 (Some 2)))) (computePower (member 1 (Some 2))) chain_saved)
       = Some ''Referral is not defined''"
    by code_simp
  have c: "rejection (daily_call env_ok (tapped (member 1 (Some 2))) (leaderboard chain_saved)) = None"
    "rejection (weekly_call env_ok (tapped (member 1 (Some 2)))
             (settled (daily_call env_ok (tapped (member 1 (Some 2))) (leaderboard chain_saved))
                (leaderboard chain_saved))) = None"
    "rejection (allTime_call env_ok (tapped (member 1 (Some 2)))
             (settled (weekly_call env_ok (tapped (member 1 (Some 2)))
                         (settled (daily_call env_ok (tapped (member 1 (Some 2))) (leaderboard chain_saved))
                            (leaderboard chain_saved)))
                (settled (daily_call env_ok (tapped (member 1 (Some 2))) (leaderboard chain_saved))
                   (leaderboard chain_saved)))) = None"
    by code_simp+
  have c': "\<exists>x. daily_call env_ok (tapped (member 1 (Some 2))) (leaderboard chain_saved) = Inr x"
    "\<exists>x. weekly_call env_ok (tapped (member 1 (Some 2)))
             (settled (daily_call env_ok (tapped (member 1 (Some 2))) (leaderboard chain_saved))
                (leaderboard chain_saved)) = Inr x"
    "\<exists>x. allTime_call env_ok (tapped (member 1 (Some 2)))
             (settled (weekly_call env_ok (tapped (member 1 (Some 2)))
                         (settled (daily_call env_ok (tapped (member 1 (Some 2))) (leaderboard chain_saved))
                            (leaderboard chain_saved)))
                (settled (daily_call env_ok (tapped (member 1 (Some 2))) (leaderboard chain_saved))
                   (leaderboard chain_saved))) = Inr x"
    using c by (auto simp: rejection_def split: sum.splits)
  have k: "lookup 7 (world_of [alice] [] []) = Some alice"
    "rejects env_two_down (User_findOne_telegramId 7) = None"
    "cooling (now env_two_down) alice = None"
    "apply_tap (now env_two_down) alice = (tapped alice, [])"
    "save env_two_down (tapped alice) ((world_of [alice] [] [])\<lparr>logged := logged (world_of [alice] [] []) @ []\<rparr>) = Inr alice_saved"
    "daily_call env_two_down (tapped alice) (leaderboard alice_saved) = Inl ''daily unavailable''"
    "weekly_call env_two_down (tapped alice)
        (settled (Inl ''daily unavailable'') (leaderboard alice_saved)) = Inl ''weekly unavailable''"
    by code_simp+
  have f: "first_rejection (settleOrder env_two_down)
        [rejection (Inl ''daily unavailable''), rejection (Inl ''weekly unavailable''),
         rejection (allTime_call env_two_down (tapped alice)
           (settled (Inl ''weekly unavailable'') (settled (Inl ''daily unavailable'') (leaderboard alice_saved))))]
       = Some ''weekly unavailable''"
    by code_simp
  note ok = tap_fanout_failures[OF h refl refl refl]
  note down = tap_fanout_failures[OF k refl]
  show ?thesis
    using h r c' k f ok down by blast
qed

section \<open>Properties of claiming a quest\<close>

lemma claim_already:
  assumes "lookup tid w = Some u"
    and "rejects e (User_findOne_telegramId tid) = None"
    and "Quest_findById_call e qid w = Inr (Some q)"
    and "qid \<in> set (completedQuests u)"
  shows "claimQuest e tid qid w = (AlreadyClaimed, w)"
  using assms by (simp add: claimQuest_def User_findOne_def lookup_def)

lemma claim_completed_frame:
  assumes "lookup tid w = Some u" and "qid \<in> set (completedQuests u)"
  shows "users (snd (claimQuest e tid qid w)) = users w"
  using assms
  by (simp add: claimQuest_def User_findOne_def lookup_def claim_catch_def logger_def
      split: option.split sum.split)

lemma claim_credited:
  assumes "lookup tid w = Some u"
    and "rejects e (User_findOne_telegramId tid) = None"
    and "Quest_findById_call e qid w = Inr (Some q)"
    and "qid \<notin> set (completedQuests u)"
    and "verifyQuestCompletion e (Some u) (Some q) = Inr v"
    and "v \<or> qtype q \<noteq> ''telegram''"
    and "rejects e (User_save (user_id u)) = None"
    and "u2 = u\<lparr>xp := xp u + xpReward q, completedQuests := completedQuests u @ [qid]\<rparr>"
  shows "claimQuest e tid qid w =
      (QuestClaimed (xp u + xpReward q),
       logger (Info_QuestClaimed tid qid)
         (w\<lparr>users := map (\<lambda>x. if user_id x = user_id u then u2 else x) (users w)\<rparr>))"
    and "lookup tid (snd (claimQuest e tid qid w)) = Some u2"
proof -
  have tg: "telegramId u = tid"
    using assms(1) by (rule lookup_telegramId)
  show c: "claimQuest e tid qid w =
      (QuestClaimed (xp u + xpReward q),
       logger (Info_QuestClaimed tid qid)
         (w\<lparr>users := map (\<lambda>x. if user_id x = user_id u then u2 else x) (users w)\<rparr>))"
    using assms(1-7) tg unfolding assms(8)
    by (auto simp: claimQuest_def User_findOne_def lookup_def save_def Let_def cong: if_cong)
  have "find (\<lambda>v. telegramId v = tid)
          (map (\<lambda>v. if user_id v = user_id u2 then u2 else v) (users w)) = Some u2"
    using assms(1) tg by (intro find_replace) (simp_all add: lookup_def assms(8))
  then show "lookup tid (snd (claimQuest e tid qid w)) = Some u2"
    using c by (simp add: lookup_def logger_def assms(8))
qed

lemma claim_success_inv:
  assumes "claimQuest e tid qid w = (QuestClaimed x, w1)"
  shows "\<exists>u q v. lookup tid w = Some u \<and> rejects e (User_findOne_telegramId tid) = None
      \<and> Quest_findById_call e qid w = Inr (Some q) \<and> qid \<notin> set (completedQuests u)
      \<and> verifyQuestCompletion e (Some u) (Some q) = Inr v \<and> (v \<or> qtype q \<noteq> ''telegram'')
      \<and> rejects e (User_save (user_id u)) = None"
  using assms
  by (auto simp: claimQuest_def User_findOne_def lookup_def claim_catch_def save_def Let_def
      split: option.splits sum.splits if_splits)

lemma quest_lookup_users:
  "quests w1 = quests w \<Longrightarrow> rejects e2 (Quest_findById qid) = None
   \<Longrightarrow> Quest_findById_call e qid w = Inr (Some q) \<Longrightarrow> Quest_findById_call e2 qid w1 = Inr (Some q)"
  by (simp add: Quest_findById_call_def split: option.splits)

text \<open>
  C9. Claiming a quest that is already among the user's completed quests is answered with
  \<open>AlreadyClaimed\<close> and leaves the state as it is, xp and completed quests included. Hence
  after a successful claim a second claim of the same quest is answered with
  \<open>AlreadyClaimed\<close>, and the user's xp is the old xp plus the reward, once. Whatever the
  answer (the quest may be gone, the database may reject), a claim of a completed quest
  leaves every user document as it was.
\<close>

theorem claim_idempotent:
  "(lookup tid w = Some u \<and> rejects e (User_findOne_telegramId tid) = None
      \<and> Quest_findById_call e qid w = Inr (Some q) \<and> qid \<in> set (completedQuests u)
    \<longrightarrow> claimQuest e tid qid w = (AlreadyClaimed, w))
   \<and> (lookup tid w = Some u \<and> Quest_findById_call e qid w = Inr (Some q)
      \<and> claimQuest e tid qid w = (QuestClaimed x, w1)
      \<and> rejects e2 (User_findOne_telegramId tid) = None \<and> rejects e2 (Quest_findById qid) = None
    \<longrightarrow> claimQuest e2 tid qid w1 = (AlreadyClaimed, w1)
        \<and> (\<exists>u1. lookup tid w1 = Some u1 \<and> xp u1 = xp u + xpReward q))
   \<and> (lookup tid w = Some u \<and> qid \<in> set (completedQuests u)
    \<longrightarrow> users (snd (claimQuest e tid qid w)) = users w)"
proof (rule conjI; (rule conjI)?; rule impI)
  assume "lookup tid w = Some u \<and> rejects e (User_findOne_telegramId tid) = None
      \<and> Quest_findById_call e qid w = Inr (Some q) \<and> qid \<in> set (completedQuests u)"
  then show "claimQuest e tid qid w = (AlreadyClaimed, w)"
    using claim_already[of tid w u e qid q] by simp
next
  assume a: "lookup tid w = Some u \<and> Quest_findById_call e qid w = Inr (Some q)
      \<and> claimQuest e tid qid w = (QuestClaimed x, w1)
      \<and> rejects e2 (User_findOne_telegramId tid) = None \<and> rejects e2 (Quest_findById qid) = None"
  then obtain v where pre: "rejects e (User_findOne_telegramId tid) = None"
    "qid \<notin> set (completedQuests u)" "verifyQuestCompletion e (Some u) (Some q) = Inr v"
    "v \<or> qtype q \<noteq> ''telegram''" "rejects e (User_save (user_id u)) = None"
    using claim_success_inv[of e tid qid w x w1] by auto
  define u2 where "u2 = u\<lparr>xp := xp u + xpReward q, completedQuests := completedQuests u @ [qid]\<rparr>"
  from a have l: "lookup tid w = Some u" and f: "Quest_findById_call e qid w = Inr (Some q)"
    by simp_all
  note c = claim_credited[OF l pre(1) f pre(2,3,4,5) u2_def]
  have w1: "w1 = snd (claimQuest e tid qid w)"
    using a by simp
  have l1: "lookup tid w1 = Some u2"
    using c(2) w1 by simp
  have q1: "quests w1 = quests w"
    using c(1) w1 by (simp add: logger_def)
  have f1: "Quest_findById_call e2 qid w1 = Inr (Some q)"
    using quest_lookup_users[OF q1 _ f, of e2] a by simp
  have "claimQuest e2 tid qid w1 = (AlreadyClaimed, w1)"
    using claim_already[OF l1 _ f1] a by (simp add: u2_def)
  then show "claimQuest e2 tid qid w1 = (AlreadyClaimed, w1)
        \<and> (\<exists>u1. lookup tid w1 = Some u1 \<and> xp u1 = xp u + xpReward q)"
    using l1 by (simp add: u2_def)
next
  assume "lookup tid w = Some u \<and> qid \<in> set (completedQuests u)"
  then show "users (snd (claimQuest e tid qid w)) = users w"
    using claim_completed_frame[of tid w u qid e] by simp
qed

theorem claim_idempotent_witness:
  "lookup 7 quest_world = Some alice_5
   \<and> Quest_findById_call env_ok 3 quest_world = Inr (Some tap_quest)
   \<and> claimQuest env_ok 7 3 quest_world = (QuestClaimed 500, claimed_world)
   \<and> rejects env_ok (User_findOne_telegramId 7) = None
   \<and> rejects env_ok (Quest_findById 3) = None
   \<and> lookup 7 claimed_world = Some alice_claimed
   \<and> Quest_findById_call env_ok 3 claimed_world = Inr (Some tap_quest)
   \<and> 3 \<in> set (completedQuests alice_claimed)
   \<and> claimQuest env_ok 7 3 claimed_world = (AlreadyClaimed, claimed_world)
   \<and> (\<exists>u1. lookup 7 claimed_world = Some u1 \<and> xp u1 = xp alice_5 + xpReward tap_quest)
   \<and> xp alice_5 + xpReward tap_quest = 500
   \<and> users (snd (claimQuest env_ok 7 3 claimed_world)) = users claimed_world"
proof -
  have h: "lookup 7 quest_world = Some alice_5"
    "Quest_findById_call env_ok 3 quest_world = Inr (Some tap_quest)"
    "claimQuest env_ok 7 3 quest_world = (QuestClaimed 500, claimed_world)"
    "rejects env_ok (User_findOne_telegramId 7) = None"
    "rejects env_ok (Quest_findById 3) = None"
    by code_simp+
  have k: "lookup 7 claimed_world = Some alice_claimed"
    "Quest_findById_call env_ok 3 claimed_world = Inr (Some tap_quest)"
    "3 \<in> set (completedQuests alice_claimed)"
    "xp alice_5 + xpReward tap_quest = 500"
    by code_simp+
  show ?thesis
    using h k
      claim_idempotent[of 7 claimed_world alice_claimed env_ok 3 tap_quest 500 claimed_world env_ok]
      claim_idempotent[of 7 quest_world alice_5 env_ok 3 tap_quest 500 claimed_world env_ok]
    by blast
qed

text \<open>
  For the types of \<open>verified_types\<close> the verifier returns a truth value and throws nothing;
  for a type that is neither \<open>telegram\<close> nor one of them it throws.
\<close>

lemma verify_verified_types:
  assumes "qtype q \<in> set verified_types"
  shows "\<exists>v. verifyQuestCompletion e (Some u) (Some q) = Inr v" and "qtype q \<noteq> ''telegram''"
  using assms by (auto simp: verifyQuestCompletion_def verified_types_def)

lemma verify_unknown_type:
  assumes "qtype q \<notin> set (''telegram'' # verified_types)"
  shows "verifyQuestCompletion e (Some u) (Some q) = Inl ''Unknown quest type''"
  using assms by (simp add: verifyQuestCompletion_def verified_types_def)

text \<open>
  A false result for a quest of type \<open>telegram\<close> is answered with \<open>NotJoined\<close> and changes
  nothing.
\<close>

lemma claim_not_joined:
  assumes "lookup tid w = Some u"
    and "rejects e (User_findOne_telegramId tid) = None"
    and "Quest_findById_call e qid w = Inr (Some q)"
    and "qid \<notin> set (completedQuests u)"
    and "qtype q = ''telegram''"
    and "verifyQuestCompletion e (Some u) (Some q) = Inr False"
  shows "claimQuest e tid qid w = (NotJoined, w)"
  using assms by (simp add: claimQuest_def User_findOne_def lookup_def)

text \<open>
  A quest of type \<open>telegram\<close> whose document has no action or no target, as under the Quest
  schema, which declares neither field, makes the verifier throw: the claim is answered with
  the error.
\<close>

lemma claim_telegram_missing_data:
  assumes "lookup tid w = Some u"
    and "rejects e (User_findOne_telegramId tid) = None"
    and "Quest_findById_call e qid w = Inr (Some q)"
    and "qid \<notin> set (completedQuests u)"
    and "qtype q = ''telegram''"
    and "action q = None \<or> targetId q = None"
  shows "claimQuest e tid qid w
      = (ErrorClaimingQuest ''Missing data'', logger (Error_ClaimingQuest ''Missing data'') w)"
  using assms
  by (auto simp: claimQuest_def User_findOne_def lookup_def claim_catch_def
      verifyQuestCompletion_def truthy_def split: option.splits)

text \<open>
  C10, as the handler has it. For a quest whose type is one of those the verifier knows other
  than \<open>telegram\<close> (daily, weekly, twitter, discord, tap, level, leaderboard, referral,
  achievement), the claim credits the reward and appends the quest to the completed quests
  whatever the verifier returned, true or false: a quest of type \<open>tap\<close> is claimed with
  fewer taps than it requires. For a type the verifier does not know, such as \<open>bonus\<close>, the
  verifier throws, the claim is answered with the error and nothing is credited. The answer
  \<open>NotJoined\<close> is given only for a false result on a quest of type \<open>telegram\<close>.
\<close>

theorem claim_unverified:
  "(lookup tid w = Some u \<and> rejects e (User_findOne_telegramId tid) = None
      \<and> Quest_findById_call e qid w = Inr (Some q) \<and> qid \<notin> set (completedQuests u)
      \<and> rejects e (User_save (user_id u)) = None
    \<longrightarrow> (qtype q \<in> set verified_types
          \<longrightarrow> fst (claimQuest e tid qid w) = QuestClaimed (xp u + xpReward q)
              \<and> lookup tid (snd (claimQuest e tid qid w))
                  = Some (u\<lparr>xp := xp u + xpReward q, completedQuests := completedQuests u @ [qid]\<rparr>))
        \<and> (qtype q \<notin> set (''telegram'' # verified_types)
          \<longrightarrow> claimQuest e tid qid w
                = (ErrorClaimingQuest ''Unknown quest type'',
                   logger (Error_ClaimingQuest ''Unknown quest type'') w)))
   \<and> (\<not> (\<exists>u q. lookup tid w = Some u \<and> Quest_findById_call e qid w = Inr (Some q)
           \<and> qtype q = ''telegram'' \<and> verifyQuestCompletion e (Some u) (Some q) = Inr False)
    \<longrightarrow> fst (claimQuest e tid qid w) \<noteq> NotJoined)"
proof (rule conjI; rule impI)
  assume a: "lookup tid w = Some u \<and> rejects e (User_findOne_telegramId tid) = None
      \<and> Quest_findById_call e qid w = Inr (Some q) \<and> qid \<notin> set (completedQuests u)
      \<and> rejects e (User_save (user_id u)) = None"
  have c: "fst (claimQuest e tid qid w) = QuestClaimed (xp u + xpReward q)
              \<and> lookup tid (snd (claimQuest e tid qid w))
                  = Some (u\<lparr>xp := xp u + xpReward q, completedQuests := completedQuests u @ [qid]\<rparr>)"
    if t: "qtype q \<in> set verified_types"
  proof -
    from verify_verified_types(1)[OF t, of e u] verify_verified_types(2)[OF t] obtain v where
      "verifyQuestCompletion e (Some u) (Some q) = Inr v" and "qtype q \<noteq> ''telegram''"
      by blast
    then show ?thesis
      using claim_credited[of tid w u e qid q v, OF _ _ _ _ _ _ _ refl] a by simp
  qed
  have n: "claimQuest e tid qid w
                = (ErrorClaimingQuest ''Unknown quest type'',
                   logger (Error_ClaimingQuest ''Unknown quest type'') w)"
    if t: "qtype q \<notin> set (''telegram'' # verified_types)"
    using a verify_unknown_type[OF t, of e u]
    by (simp add: claimQuest_def User_findOne_def lookup_def claim_catch_def)
  show "(qtype q \<in> set verified_types
          \<longrightarrow> fst (claimQuest e tid qid w) = QuestClaimed (xp u + xpReward q)
              \<and> lookup tid (snd (claimQuest e tid qid w))
                  = Some (u\<lparr>xp := xp u + xpReward q, completedQuests := completedQuests u @ [qid]\<rparr>))
        \<and> (qtype q \<notin> set (''telegram'' # verified_types)
          \<longrightarrow> claimQuest e tid qid w
                = (ErrorClaimingQuest ''Unknown quest type'',
                   logger (Error_ClaimingQuest ''Unknown quest type'') w))"
    using c n by blast
next
  assume n: "\<not> (\<exists>u q. lookup tid w = Some u \<and> Quest_findById_call e qid w = Inr (Some q)
           \<and> qtype q = ''telegram'' \<and> verifyQuestCompletion e (Some u) (Some q) = Inr False)"
  have "\<exists>u q. lookup tid w = Some u \<and> Quest_findById_call e qid w = Inr (Some q)
           \<and> qtype q = ''telegram'' \<and> verifyQuestCompletion e (Some u) (Some q) = Inr False"
    if "fst (claimQuest e tid qid w) = NotJoined"
    using that
    by (auto simp: claimQuest_def User_findOne_def lookup_def claim_catch_def Let_def
        split: option.splits sum.splits if_splits)
  then show "fst (claimQuest e tid qid w) \<noteq> NotJoined"
    using n by blast
qed

text \<open>
  C10 as stated fails for a quest of type \<open>bonus\<close>: the type is not \<open>telegram\<close>, and the claim
  is answered with the error of the verifier; the user has neither the reward nor the quest
  among the completed ones.
\<close>

theorem claim_bonus_not_credited:
  "lookup 7 quest_world = Some alice_5
   \<and> Quest_findById_call env_ok 5 quest_world = Inr (Some bonus_quest)
   \<and> qtype bonus_quest = ''bonus''
   \<and> qtype bonus_quest \<noteq> ''telegram''
   \<and> 5 \<notin> set (completedQuests alice_5)
   \<and> fst (claimQuest env_ok 7 5 quest_world) = ErrorClaimingQuest ''Unknown quest type''
   \<and> status (fst (claimQuest env_ok 7 5 quest_world)) = 500
   \<and> lookup 7 (snd (claimQuest env_ok 7 5 quest_world)) = Some alice_5"
  by code_simp

theorem claim_unverified_witness:
  "lookup 7 quest_world = Some alice_5
   \<and> rejects env_ok (User_findOne_telegramId 7) = None
   \<and> rejects env_ok (User_save (user_id alice_5)) = None
   \<and> Quest_findById_call env_ok 3 quest_world = Inr (Some tap_quest)
   \<and> 3 \<notin> set (completedQuests alice_5)
   \<and> qtype tap_quest \<in> set verified_types
   \<and> qtype tap_quest = ''tap'' \<and> totalTaps alice_5 = 5 \<and> requirement tap_quest = Some 1000
   \<and> verifyQuestCompletion env_ok (Some alice_5) (Some tap_quest) = Inr False
   \<and> fst (claimQuest env_ok 7 3 quest_world) = QuestClaimed (xp alice_5 + xpReward tap_quest)
   \<and> lookup 7 (snd (claimQuest env_ok 7 3 quest_world))
       = Some (alice_5\<lparr>xp := xp alice_5 + xpReward tap_quest,
                        completedQuests := completedQuests alice_5 @ [3]\<rparr>)
   \<and> Quest_findById_call env_ok 4 quest_world = Inr (Some level_quest)
   \<and> 4 \<notin> set (completedQuests alice_5)
   \<and> qtype level_quest \<in> set verified_types
   \<and> verifyQuestCompletion env_ok (Some alice_5) (Some level_quest) = Inr False
   \<and> fst (claimQuest env_ok 7 4 quest_world) = QuestClaimed (xp alice_5 + xpReward level_quest)
   \<and> Quest_findById_call env_ok 5 quest_world = Inr (Some bonus_quest)
   \<and> 5 \<notin> set (completedQuests alice_5)
   \<and> qtype bonus_quest \<notin> set (''telegram'' # verified_types)
   \<and> claimQuest env_ok 7 5 quest_world
       = (ErrorClaimingQuest ''Unknown quest type'',
          logger (Error_ClaimingQuest ''Unknown quest type'') quest_world)
   \<and> \<not> (\<exists>u q. lookup 7 quest_world = Some u \<and> Quest_findById_call env_ok 3 quest_world = Inr (Some q)
           \<and> qtype q = ''telegram'' \<and> verifyQuestCompletion env_ok (Some u) (Some q) = Inr False)
   \<and> fst (claimQuest env_ok 7 3 quest_world) \<noteq> NotJoined"
proof -
  have h: "lookup 7 quest_world = Some alice_5"
    "rejects env_ok (User_findOne_telegramId 7) = None"
    "rejects env_ok (User_save (user_id alice_5)) = None"
    "Quest_findById_call env_ok 3 quest_world = Inr (Some tap_quest)"
    "3 \<notin> set (completedQuests alice_5)"
    "qtype tap_quest \<in> set verified_types"
    "qtype tap_quest = ''tap''" "totalTaps alice_5 = 5" "requirement tap_quest = Some 1000"
    "verifyQuestCompletion env_ok (Some alice_5) (Some tap_quest) = Inr False"
    by code_simp+
  have k: "Quest_findById_call env_ok 4 quest_world = Inr (Some level_quest)"
    "4 \<notin> set (completedQuests alice_5)"
    "qtype level_quest \<in> set verified_types"
    "verifyQuestCompletion env_ok (Some alice_5) (Some level_quest) = Inr False"
    by code_simp+
  have b: "Quest_findById_call env_ok 5 quest_world = Inr (Some bonus_quest)"
    "5 \<notin> set (completedQuests alice_5)"
    "qtype bonus_quest \<notin> set (''telegram'' # verified_types)"
    by code_simp+
  have t: "qtype tap_quest \<noteq> ''telegram''"
    by code_simp
  have n: "\<not> (\<exists>u q. lookup 7 quest_world = Some u \<and> Quest_findById_call env_ok 3 quest_world = Inr (Some q)
           \<and> qtype q = ''telegram'' \<and> verifyQuestCompletion env_ok (Some u) (Some q) = Inr False)"
    using h(4) t by auto
  show ?thesis
    using h k b n
      claim_unverified[of 7 quest_world alice_5 env_ok 3 tap_quest]
      claim_unverified[of 7 quest_world alice_5 env_ok 4 level_quest]
      claim_unverified[of 7 quest_world alice_5 env_ok 5 bonus_quest]
    by blast
qed

end
